theory Spec2Isabelle
  imports Complex_Main "HOL-Library.AList" "HOL-Library.Multiset"
begin

section \<open>The stream-where server: cache, upstream gateways, bundle analysis\<close>

text \<open>
  The embedding follows the third (current) server variant, the one with the cache, the
  usage counters and the \<^verbatim>\<open>/api/bundle\<close> endpoint. Every \<^verbatim>\<open>Date.now()\<close> the code reads
  is an explicit argument of type \<open>time\<close> (milliseconds); every upstream reply is an
  explicit argument as well, so that a handler is a function from the state before to the
  state after and the response it sends.
\<close>

subsection \<open>Cache store\<close>

type_synonym time = int

definition CACHE_TTL :: int where
  "CACHE_TTL = 24 * 60 * 60 * 1000"

record 'v cache_entry =
  data :: 'v
  timestamp :: time

text \<open>
  \<^verbatim>\<open>const cache = new Map()\<close>: a JavaScript \<^verbatim>\<open>Map\<close> keeps its keys in insertion order,
  \<^verbatim>\<open>set\<close> on a key that is present replaces the value in place and \<^verbatim>\<open>delete\<close> removes the
  key. That is an association list under \<open>AList.update\<close> and \<open>AList.delete\<close>;
  \<^verbatim>\<open>cache.size\<close> is its length.
\<close>

type_synonym ('k, 'v) cache_map = "('k \<times> 'v cache_entry) list"

definition getFromCache :: "time \<Rightarrow> 'k \<Rightarrow> ('k, 'v) cache_map \<Rightarrow> 'v option \<times> ('k, 'v) cache_map" where
  "getFromCache now key c =
     (case map_of c key of
        None \<Rightarrow> (None, c)
      | Some cached \<Rightarrow>
          if now - timestamp cached > CACHE_TTL then (None, AList.delete key c)
          else (Some (data cached), c))"

definition setCache :: "time \<Rightarrow> 'k \<Rightarrow> 'v \<Rightarrow> ('k, 'v) cache_map \<Rightarrow> ('k, 'v) cache_map" where
  "setCache now key d c = AList.update key \<lparr>data = d, timestamp = now\<rparr> c"

definition cache_size :: "('k, 'v) cache_map \<Rightarrow> nat" where
  "cache_size c = length c"

text \<open>The hourly sweep of \<^verbatim>\<open>setInterval\<close>: every entry past the TTL is deleted.\<close>

definition sweep :: "time \<Rightarrow> ('k, 'v) cache_map \<Rightarrow> ('k, 'v) cache_map" where
  "sweep now c = filter (\<lambda>(key, v). \<not> now - timestamp v > CACHE_TTL) c"

subsection \<open>JavaScript strings and numbers\<close>

text \<open>
  Strings are lists of 8-bit characters, so the string functions are modelled on ASCII
  text: \<^verbatim>\<open>toLowerCase\<close> maps \<^verbatim>\<open>A\<close>..\<^verbatim>\<open>Z\<close> to \<^verbatim>\<open>a\<close>..\<^verbatim>\<open>z\<close>, and \<^verbatim>\<open>trim\<close> strips
  tab, line feed, vertical tab, form feed, carriage return and space from both ends.
  A JavaScript value is truthy as a string when it is present and not empty.
\<close>

definition toLowerCase_char :: "char \<Rightarrow> char" where
  "toLowerCase_char c =
     (let n = (of_char c :: nat) in if 65 \<le> n \<and> n \<le> 90 then char_of (n + 32) else c)"

definition toLowerCase :: "string \<Rightarrow> string" where
  "toLowerCase s = map toLowerCase_char s"

definition isWhiteSpace :: "char \<Rightarrow> bool" where
  "isWhiteSpace c = (let n = (of_char c :: nat) in n = 32 \<or> (9 \<le> n \<and> n \<le> 13))"

definition trim :: "string \<Rightarrow> string" where
  "trim s = rev (dropWhile isWhiteSpace (rev (dropWhile isWhiteSpace s)))"

fun includes' :: "string \<Rightarrow> string \<Rightarrow> bool" where
  "includes' [] sub = (sub = [])"
| "includes' (c # cs) sub = (take (length sub) (c # cs) = sub \<or> includes' cs sub)"

definition truthy :: "string option \<Rightarrow> string option" where
  "truthy v = (case v of None \<Rightarrow> None | Some s \<Rightarrow> if s = [] then None else Some s)"

datatype js_number = Num int | NaN

definition digitOf :: "nat \<Rightarrow> char \<Rightarrow> nat option" where
  "digitOf radix c =
     (let n = (of_char c :: nat);
          d = (if 48 \<le> n \<and> n \<le> 57 then Some (n - 48)
               else if 97 \<le> n \<and> n \<le> 122 then Some (n - 87)
               else if 65 \<le> n \<and> n \<le> 90 then Some (n - 55)
               else None)
      in case d of None \<Rightarrow> None | Some v \<Rightarrow> if v < radix then Some v else None)"

fun parseDigits :: "nat \<Rightarrow> string \<Rightarrow> nat list" where
  "parseDigits radix [] = []"
| "parseDigits radix (c # cs) =
     (case digitOf radix c of None \<Rightarrow> [] | Some v \<Rightarrow> v # parseDigits radix cs)"

text \<open>
  \<^verbatim>\<open>parseInt(s)\<close> with no radix: leading white space and one sign are skipped, a
  \<^verbatim>\<open>0x\<close> prefix selects base 16, the longest run of digits is read, and no digit at all
  gives \<^verbatim>\<open>NaN\<close>. (The loss of precision of a double beyond \<open>2^53\<close> is not modelled.)
\<close>

definition parseInt :: "string \<Rightarrow> js_number" where
  "parseInt s =
     (let s1 = dropWhile isWhiteSpace s;
          neg = (take 1 s1 = ''-'');
          s2 = (if take 1 s1 = ''-'' \<or> take 1 s1 = ''+'' then drop 1 s1 else s1);
          hex = (take 2 s2 = ''0x'' \<or> take 2 s2 = ''0X'');
          radix = (if hex then 16 else 10);
          ds = parseDigits radix (if hex then drop 2 s2 else s2);
          v = int (foldl (\<lambda>a d. a * radix + d) 0 ds)
      in if ds = [] then NaN else Num (if neg then - v else v))"

subsection \<open>Data exchanged with the upstreams\<close>

text \<open>
  An \<^verbatim>\<open>axios\<close> call either resolves with the response or rejects; the handlers read
  only \<^verbatim>\<open>error.response?.status\<close> of a rejection, which is absent for a network fault.
\<close>

datatype 'a axios = Resolved 'a | Rejected "nat option"

text \<open>An entry of OMDb's \<^verbatim>\<open>Search\<close> array, and the clean format the server maps it to
  (\<open>id'\<close> is the field \<^verbatim>\<open>id\<close>).\<close>

record omdb_movie =
  imdbID :: string
  Title :: string
  Year :: string
  Poster :: string

record movie =
  id' :: string
  title :: string
  year :: string
  poster :: string

definition clean :: "omdb_movie \<Rightarrow> movie" where
  "clean m = \<lparr>id' = imdbID m, title = Title m, year = Year m, poster = Poster m\<rparr>"

text \<open>\<^verbatim>\<open>response.data\<close> of OMDb: the fields \<^verbatim>\<open>Error\<close> and \<^verbatim>\<open>Search\<close>, each possibly absent.\<close>

record omdb_data =
  Error :: "string option"
  Search :: "omdb_movie list option"

text \<open>
  A raw streaming option of the availability upstream: \<open>opt_type\<close> is its field
  \<^verbatim>\<open>type\<close>, \<open>opt_service\<close> its field \<^verbatim>\<open>service\<close> (with \<^verbatim>\<open>name\<close> and \<^verbatim>\<open>id\<close>), and
  \<open>opt_link\<close> stands for the rest of the record, which the server passes through.
\<close>

record service_ref =
  svc_name :: "string option"
  svc_id :: "string option"

record streaming_option =
  opt_type :: string
  opt_service :: "service_ref option"
  opt_link :: string

record rapid_headers =
  ratelimit_remaining :: "string option"
  ratelimit_limit :: "string option"

record rapid_data =
  headers :: rapid_headers
  streamingOptions_in :: "streaming_option list option"
  imdbLink :: "string option"

subsection \<open>Server state\<close>

text \<open>
  The provider-shaped JSON object. \<open>link = None\<close> is an object without the field
  \<^verbatim>\<open>link\<close>; \<open>notFound\<close> is true when the field is present (it is only ever written as
  \<^verbatim>\<open>true\<close>); \<open>message = None\<close> is an object without \<^verbatim>\<open>message\<close>.
\<close>

record providers =
  link :: "string option"
  flatrate :: "streaming_option list"
  rent :: "streaming_option list"
  buy :: "streaming_option list"
  notFound :: bool
  message :: "string option"

text \<open>The cache holds search results under \<^verbatim>\<open>search:\<close> keys and provider objects under
  \<^verbatim>\<open>providers:\<close> keys.\<close>

datatype cache_data = Movies "movie list" | Providers providers

record rapidApi_usage =
  remaining :: "js_number option"
  limit :: "js_number option"

record omdb_usage =
  dailyCount :: nat
  lastReset :: time

record api_usage =
  rapidApi :: rapidApi_usage
  omdb :: omdb_usage

text \<open>
  The state of the process: the cache and the usage counters. The two request lists are
  the trace of the network effect: every \<^verbatim>\<open>axios\<close> call appends the query (OMDb) or the
  title id (RapidAPI) it was issued for.
\<close>

record server_state =
  cache :: "(string, cache_data) cache_map"
  apiUsage :: api_usage
  omdbRequests :: "string list"
  rapidRequests :: "string list"

definition oneDayMs :: int where
  "oneDayMs = 24 * 60 * 60 * 1000"

definition checkOmdbReset :: "time \<Rightarrow> server_state \<Rightarrow> server_state" where
  "checkOmdbReset now st =
     (if now - lastReset (omdb (apiUsage st)) > oneDayMs
      then st\<lparr>apiUsage := (apiUsage st)\<lparr>omdb := \<lparr>dailyCount = 0, lastReset = now\<rparr>\<rparr>\<rparr>
      else st)"

definition updateRapidApiUsage :: "rapid_headers \<Rightarrow> server_state \<Rightarrow> server_state" where
  "updateRapidApiUsage h st =
     (let st1 = (case truthy (ratelimit_remaining h) of
                   None \<Rightarrow> st
                 | Some v \<Rightarrow> st\<lparr>apiUsage := (apiUsage st)\<lparr>rapidApi :=
                              (rapidApi (apiUsage st))\<lparr>remaining := Some (parseInt v)\<rparr>\<rparr>\<rparr>)
      in case truthy (ratelimit_limit h) of
           None \<Rightarrow> st1
         | Some v \<Rightarrow> st1\<lparr>apiUsage := (apiUsage st1)\<lparr>rapidApi :=
                      (rapidApi (apiUsage st1))\<lparr>limit := Some (parseInt v)\<rparr>\<rparr>\<rparr>)"

definition incr_omdb :: "server_state \<Rightarrow> server_state" where
  "incr_omdb st =
     st\<lparr>apiUsage := (apiUsage st)\<lparr>omdb :=
          (omdb (apiUsage st))\<lparr>dailyCount := dailyCount (omdb (apiUsage st)) + 1\<rparr>\<rparr>\<rparr>"

subsection \<open>Responses\<close>

text \<open>
  \<open>ErrorJson error rateLimited service\<close> is the error object
  \<^verbatim>\<open>{error, rateLimited, service}\<close> (\<open>rateLimited\<close> false and \<open>service = None\<close> when
  the field is absent); \<open>Response status body\<close> is \<^verbatim>\<open>res.status(status).json(body)\<close>.
\<close>

record service_entry =
  service :: string
  movieCount :: nat
  movies :: "string list"
  coverage :: int

record movie_detail =
  searchQuery :: string
  detail_title :: "string option"
  detail_year :: "string option"
  found :: bool
  subscriptionServices :: "string list"

record bundle_report =
  totalMovies :: nat
  foundMovies :: nat
  notFoundMovies :: "string list"
  bestService :: "service_entry option"
  allServices :: "service_entry list"
  notOnAnySubscription :: "string list"
  movieDetails :: "movie_detail list"

record status_report =
  rapidApi_remaining :: "js_number option"
  rapidApi_limit :: "js_number option"
  estimatedDailyUsage :: nat
  cache_entries :: nat

datatype body =
    ErrorJson string bool "string option"
  | Data cache_data
  | Report bundle_report
  | Status status_report

datatype http_response = Response nat body

text \<open>The state of a process started at the clock \<open>t0\<close>.\<close>

definition initial_state :: "time \<Rightarrow> server_state" where
  "initial_state t0 =
     \<lparr>cache = [],
      apiUsage = \<lparr>rapidApi = \<lparr>remaining = None, limit = None\<rparr>,
                  omdb = \<lparr>dailyCount = 0, lastReset = t0\<rparr>\<rparr>,
      omdbRequests = [], rapidRequests = []\<rparr>"

subsection \<open>Route 1: search\<close>

definition search_key :: "string \<Rightarrow> string" where
  "search_key query = ''search:'' @ trim (toLowerCase query)"

text \<open>
  \<^verbatim>\<open>app.get('/api/search')\<close>. \<open>q\<close> is \<^verbatim>\<open>req.query.q\<close>; \<open>now\<close> is the clock when the
  request is handled, \<open>reply\<close> the answer of OMDb should the handler ask, and \<open>later\<close>
  the clock when that answer arrives (the two readings of the clock before the request,
  in \<^verbatim>\<open>getFromCache\<close> and in \<^verbatim>\<open>checkOmdbReset\<close>, are taken to be the same). A
  \<^verbatim>\<open>Search\<close> field that is missing makes \<^verbatim>\<open>response.data.Search.slice\<close> throw, which
  the \<^verbatim>\<open>catch\<close> turns into status 500.
\<close>

definition search_route ::
  "string option \<Rightarrow> time \<Rightarrow> omdb_data axios \<Rightarrow> time \<Rightarrow> server_state \<Rightarrow> http_response \<times> server_state" where
  "search_route q now reply later st =
     (case truthy q of
        None \<Rightarrow> (Response 400 (ErrorJson ''Query required'' False None), st)
      | Some query \<Rightarrow>
          (let cacheKey = search_key query;
               (cached, c) = getFromCache now cacheKey (cache st);
               st0 = st\<lparr>cache := c\<rparr>
           in case cached of
               Some d \<Rightarrow> (Response 200 (Data d), st0)
             | None \<Rightarrow>
                 (let st1 = checkOmdbReset now st0;
                      st2 = st1\<lparr>omdbRequests := omdbRequests st1 @ [query]\<rparr>
                  in case reply of
                      Rejected status \<Rightarrow>
                        if status = Some 401
                        then (Response 401 (ErrorJson ''Invalid OMDb API key'' False None), st2)
                        else (Response 500 (ErrorJson ''Search failed'' False None), st2)
                    | Resolved d \<Rightarrow>
                        (let st3 = incr_omdb st2
                         in case truthy (Error d) of
                             Some e \<Rightarrow>
                               if includes' e ''limit'' \<or> includes' e ''Request limit''
                               then (Response 429
                                       (ErrorJson ''OMDb daily limit reached (1000 requests/day)''
                                          True (Some ''omdb'')), st3)
                               else (Response 200 (Data (Movies [])), st3)
                           | None \<Rightarrow>
                               (case Search d of
                                  None \<Rightarrow> (Response 500 (ErrorJson ''Search failed'' False None), st3)
                                | Some ms \<Rightarrow>
                                    let results = map clean (take 5 ms)
                                    in (Response 200 (Data (Movies results)),
                                        st3\<lparr>cache := setCache later cacheKey (Movies results) (cache st3)\<rparr>))))))"

subsection \<open>Route 2 and the bundle helper: streaming providers\<close>

definition providers_key :: "string \<Rightarrow> string" where
  "providers_key imdbId = ''providers:'' @ imdbId"

definition indiaOptions :: "rapid_data \<Rightarrow> streaming_option list" where
  "indiaOptions d = (case streamingOptions_in d of None \<Rightarrow> [] | Some opts \<Rightarrow> opts)"

definition emptyProviders :: providers where
  "emptyProviders = \<lparr>link = None, flatrate = [], rent = [], buy = [], notFound = False, message = None\<rparr>"

text \<open>\<^verbatim>\<open>app.get('/api/providers/:imdbId')\<close>.\<close>

definition providers_route ::
  "string \<Rightarrow> time \<Rightarrow> rapid_data axios \<Rightarrow> time \<Rightarrow> server_state \<Rightarrow> http_response \<times> server_state" where
  "providers_route imdbId now reply later st =
     (let cacheKey = providers_key imdbId;
          (cached, c) = getFromCache now cacheKey (cache st);
          st0 = st\<lparr>cache := c\<rparr>
      in case cached of
           Some d \<Rightarrow> (Response 200 (Data d), st0)
         | None \<Rightarrow>
             (let st1 = st0\<lparr>rapidRequests := rapidRequests st0 @ [imdbId]\<rparr>
              in case reply of
                  Resolved d \<Rightarrow>
                    let st2 = updateRapidApiUsage (headers d) st1;
                        result = \<lparr>link = Some (case truthy (imdbLink d) of None \<Rightarrow> [] | Some l \<Rightarrow> l),
                                  flatrate = filter (\<lambda>opt. opt_type opt = ''subscription'') (indiaOptions d),
                                  rent = filter (\<lambda>opt. opt_type opt = ''rent'') (indiaOptions d),
                                  buy = filter (\<lambda>opt. opt_type opt = ''buy'') (indiaOptions d),
                                  notFound = False, message = None\<rparr>
                    in (Response 200 (Data (Providers result)),
                        st2\<lparr>cache := setCache later cacheKey (Providers result) (cache st2)\<rparr>)
                | Rejected status \<Rightarrow>
                    if status = Some 429
                    then (Response 429
                            (ErrorJson ''RapidAPI rate limit exceeded. Please try again later.''
                               True (Some ''rapidapi'')), st1)
                    else if status = Some 402
                    then (Response 402
                            (ErrorJson ''RapidAPI monthly quota exceeded (1000 requests/month)''
                               True (Some ''rapidapi'')), st1)
                    else if status = Some 403
                    then (Response 403
                            (ErrorJson ''RapidAPI access denied. Check your API key or subscription.''
                               False (Some ''rapidapi'')), st1)
                    else if status = Some 404
                    then (Response 200 (Data (Providers (emptyProviders\<lparr>notFound := True\<rparr>))), st1)
                    else (Response 200
                            (Data (Providers (emptyProviders\<lparr>message := Some ''Provider data unavailable''\<rparr>))),
                          st1)))"

text \<open>
  An \<^verbatim>\<open>async\<close> function runs synchronously up to its first \<^verbatim>\<open>await\<close>: it has either
  returned by then (\<open>Settled\<close>) or has issued its request and waits for the reply
  (\<open>InFlight\<close>). Each helper is therefore split into the part before the \<^verbatim>\<open>await\<close> and
  the part after it; the helper itself is the one after the other.
\<close>

datatype 'a pending = Settled 'a | InFlight

text \<open>
  What a helper throws: \<open>Thrown message rateLimited status\<close> stands for an \<^verbatim>\<open>Error\<close>
  with the fields \<^verbatim>\<open>rateLimited\<close> and \<^verbatim>\<open>status\<close> (false and absent on a plain
  \<^verbatim>\<open>TypeError\<close>).
\<close>

datatype thrown = Thrown string bool "nat option"

fun thrown_rateLimited :: "thrown \<Rightarrow> bool" where
  "thrown_rateLimited (Thrown m r s) = r"

fun thrown_status :: "thrown \<Rightarrow> nat option" where
  "thrown_status (Thrown m r s) = s"

text \<open>\<^verbatim>\<open>getProvidersForMovie\<close>, used by the bundle endpoint.\<close>

definition getProviders_begin :: "time \<Rightarrow> string \<Rightarrow> server_state \<Rightarrow> cache_data pending \<times> server_state" where
  "getProviders_begin now imdbId st =
     (let cacheKey = providers_key imdbId;
          (cached, c) = getFromCache now cacheKey (cache st);
          st0 = st\<lparr>cache := c\<rparr>
      in case cached of
           Some d \<Rightarrow> (Settled d, st0)
         | None \<Rightarrow> (InFlight, st0\<lparr>rapidRequests := rapidRequests st0 @ [imdbId]\<rparr>))"

definition getProviders_resume ::
  "string \<Rightarrow> rapid_data axios \<Rightarrow> time \<Rightarrow> server_state \<Rightarrow> (thrown + cache_data) \<times> server_state" where
  "getProviders_resume imdbId reply later st =
     (case reply of
        Resolved d \<Rightarrow>
          (let st1 = updateRapidApiUsage (headers d) st;
               result = \<lparr>link = None,
                         flatrate = filter (\<lambda>opt. opt_type opt = ''subscription'') (indiaOptions d),
                         rent = filter (\<lambda>opt. opt_type opt = ''rent'') (indiaOptions d),
                         buy = filter (\<lambda>opt. opt_type opt = ''buy'') (indiaOptions d),
                         notFound = False, message = None\<rparr>
           in (Inr (Providers result),
               st1\<lparr>cache := setCache later (providers_key imdbId) (Providers result) (cache st1)\<rparr>))
      | Rejected status \<Rightarrow>
          if status = Some 429 \<or> status = Some 402
          then (Inl (Thrown (if status = Some 429 then ''Rate limit exceeded''
                             else ''Monthly quota exceeded'') True status), st)
          else (Inr (Providers emptyProviders), st))"

definition getProvidersForMovie ::
  "string \<Rightarrow> time \<Rightarrow> rapid_data axios \<Rightarrow> time \<Rightarrow> server_state \<Rightarrow> (thrown + cache_data) \<times> server_state" where
  "getProvidersForMovie imdbId now reply later st =
     (case getProviders_begin now imdbId st of
        (Settled d, st1) \<Rightarrow> (Inr d, st1)
      | (InFlight, st1) \<Rightarrow> getProviders_resume imdbId reply later st1)"

subsection \<open>The bundle helper: movie resolution\<close>

text \<open>\<^verbatim>\<open>cached && cached.length > 0\<close>, then \<^verbatim>\<open>cached[0]\<close>: a provider object has no
  \<^verbatim>\<open>length\<close>, an empty array has length 0.\<close>

definition cachedFirst :: "cache_data option \<Rightarrow> movie option" where
  "cachedFirst cached =
     (case cached of
        Some (Movies (m # ms)) \<Rightarrow> Some m
      | _ \<Rightarrow> None)"

definition searchMovie_begin :: "time \<Rightarrow> string \<Rightarrow> server_state \<Rightarrow> movie pending \<times> server_state" where
  "searchMovie_begin now query st =
     (let cacheKey = search_key query;
          (cached, c) = getFromCache now cacheKey (cache st);
          st0 = st\<lparr>cache := c\<rparr>
      in case cachedFirst cached of
           Some m \<Rightarrow> (Settled m, st0)
         | None \<Rightarrow> (InFlight, st0\<lparr>omdbRequests := omdbRequests st0 @ [query]\<rparr>))"

text \<open>
  After the \<^verbatim>\<open>await\<close>: an \<^verbatim>\<open>Error\<close> field of any content, a missing or an empty
  \<^verbatim>\<open>Search\<close> array, and a rejected request all return \<^verbatim>\<open>null\<close>.
\<close>

definition searchMovie_resume ::
  "string \<Rightarrow> omdb_data axios \<Rightarrow> time \<Rightarrow> server_state \<Rightarrow> movie option \<times> server_state" where
  "searchMovie_resume query reply later st =
     (case reply of
        Rejected status \<Rightarrow> (None, st)
      | Resolved d \<Rightarrow>
          if truthy (Error d) \<noteq> None \<or> Search d = None \<or> Search d = Some [] then (None, st)
          else (case Search d of
                  None \<Rightarrow> (None, st)
                | Some ms \<Rightarrow>
                    (let results = map clean (take 5 ms)
                     in (case results of [] \<Rightarrow> None | r # rs \<Rightarrow> Some r,
                         st\<lparr>cache := setCache later (search_key query) (Movies results) (cache st)\<rparr>))))"

definition searchMovie ::
  "string \<Rightarrow> time \<Rightarrow> omdb_data axios \<Rightarrow> time \<Rightarrow> server_state \<Rightarrow> movie option \<times> server_state" where
  "searchMovie query now reply later st =
     (case searchMovie_begin now query st of
        (Settled m, st1) \<Rightarrow> (Some m, st1)
      | (InFlight, st1) \<Rightarrow> searchMovie_resume query reply later st1)"

subsection \<open>Route 3: bundle\<close>

text \<open>
  \<^verbatim>\<open>Promise.all(movies.map(async ...))\<close> starts every call in input order, so all the
  cache lookups (at the clock \<open>now\<close>) come before any reply is handled. Reply \<open>i\<close> is
  the pair of the answer to the \<open>i\<close>-th call and the clock at which it arrives. The
  replies are then handled one by one in the order of their arrival, that is by ascending
  clock; replies that arrive at the same clock reading are taken in input order.
\<close>

definition arrival_order :: "(nat \<Rightarrow> 'r \<times> time) \<Rightarrow> nat \<Rightarrow> nat list" where
  "arrival_order upstream n = sort_key (\<lambda>i. snd (upstream i)) [0..<n]"

text \<open>\<^verbatim>\<open>Promise.all\<close> resolves with the values in input order, whatever the order in which
  its promises settled: \<open>in_input_order\<close> sorts the settlements by position.\<close>

definition in_input_order :: "(nat \<times> 'a) list \<Rightarrow> 'a list" where
  "in_input_order settled = map snd (sort_key fst settled)"

datatype movie_result = NotFound string | Found string movie

fun begin_searches :: "time \<Rightarrow> string list \<Rightarrow> server_state \<Rightarrow> (string \<times> movie pending) list \<times> server_state" where
  "begin_searches now [] st = ([], st)"
| "begin_searches now (q # qs) st =
     (let (p, st1) = searchMovie_begin now q st;
          (ps, st2) = begin_searches now qs st1
      in ((q, p) # ps, st2))"

text \<open>The rest of one element of \<^verbatim>\<open>movies.map(async (movieName) => ...)\<close>, once its search
  has returned or its reply has arrived.\<close>

definition resume_search ::
  "string \<times> movie pending \<Rightarrow> omdb_data axios \<times> time \<Rightarrow> server_state \<Rightarrow> movie_result \<times> server_state" where
  "resume_search started reply st =
     (case started of (q, p) \<Rightarrow>
        (let (m, st1) = (case p of
                           Settled m \<Rightarrow> (Some m, st)
                         | InFlight \<Rightarrow> searchMovie_resume q (fst reply) (snd reply) st)
         in (case m of Some mv \<Rightarrow> Found q mv | None \<Rightarrow> NotFound q, st1)))"

text \<open>The calls at the positions \<open>order\<close> are resumed one after the other; each result is
  paired with the position of its call.\<close>

fun resume_searches ::
  "(nat \<Rightarrow> omdb_data axios \<times> time) \<Rightarrow> (string \<times> movie pending) list \<Rightarrow> nat list \<Rightarrow> server_state
   \<Rightarrow> (nat \<times> movie_result) list \<times> server_state" where
  "resume_searches upstream started [] st = ([], st)"
| "resume_searches upstream started (i # order) st =
     (let (r, st1) = resume_search (started ! i) (upstream i) st;
          (rs, st2) = resume_searches upstream started order st1
      in ((i, r) # rs, st2))"

text \<open>Step 1: \<^verbatim>\<open>movieResults\<close>.\<close>

definition resolve_all ::
  "time \<Rightarrow> (nat \<Rightarrow> omdb_data axios \<times> time) \<Rightarrow> string list \<Rightarrow> server_state
   \<Rightarrow> movie_result list \<times> server_state" where
  "resolve_all now upstream names st =
     (let (started, st1) = begin_searches now names st;
          (settled, st2) = resume_searches upstream started
                             (arrival_order upstream (length started)) st1
      in (in_input_order settled, st2))"

text \<open>Step 2: a movie that was not found gets \<^verbatim>\<open>providers: null\<close> and no call is made
  (the second component of its pair is not used).\<close>

datatype movie_with_providers = NotFoundP string | FoundP string movie cache_data

fun begin_lookups ::
  "time \<Rightarrow> movie_result list \<Rightarrow> server_state \<Rightarrow> (movie_result \<times> cache_data pending) list \<times> server_state" where
  "begin_lookups now [] st = ([], st)"
| "begin_lookups now (NotFound q # ms) st =
     (let (ps, st2) = begin_lookups now ms st
      in ((NotFound q, InFlight) # ps, st2))"
| "begin_lookups now (Found q mv # ms) st =
     (let (p, st1) = getProviders_begin now (id' mv) st;
          (ps, st2) = begin_lookups now ms st1
      in ((Found q mv, p) # ps, st2))"

fun resume_lookup ::
  "movie_result \<times> cache_data pending \<Rightarrow> rapid_data axios \<times> time \<Rightarrow> server_state
   \<Rightarrow> (thrown + movie_with_providers) \<times> server_state" where
  "resume_lookup (NotFound q, p) reply st = (Inr (NotFoundP q), st)"
| "resume_lookup (Found q mv, p) reply st =
     (let (r, st1) = (case p of
                        Settled d \<Rightarrow> (Inr d, st)
                      | InFlight \<Rightarrow> getProviders_resume (id' mv) (fst reply) (snd reply) st)
      in (case r of Inl e \<Rightarrow> Inl e | Inr d \<Rightarrow> Inr (FoundP q mv d), st1))"

fun resume_lookups ::
  "(nat \<Rightarrow> rapid_data axios \<times> time) \<Rightarrow> (movie_result \<times> cache_data pending) list \<Rightarrow> nat list
   \<Rightarrow> server_state \<Rightarrow> (nat \<times> (thrown + movie_with_providers)) list \<times> server_state" where
  "resume_lookups upstream looking [] st = ([], st)"
| "resume_lookups upstream looking (i # order) st =
     (let (r, st1) = resume_lookup (looking ! i) (upstream i) st;
          (rs, st2) = resume_lookups upstream looking order st1
      in ((i, r) # rs, st2))"

text \<open>
  \<^verbatim>\<open>Promise.all\<close>, given the settlements of its promises in the order in which they
  happened, each with the position of its promise: it rejects with the first rejection
  in time, and otherwise resolves with all the values, in input order.
\<close>

fun first_rejection :: "(nat \<times> ('e + 'a)) list \<Rightarrow> 'e option" where
  "first_rejection [] = None"
| "first_rejection ((i, Inl e) # settled) = Some e"
| "first_rejection ((i, Inr x) # settled) = first_rejection settled"

fun fulfilled :: "(nat \<times> ('e + 'a)) list \<Rightarrow> (nat \<times> 'a) list" where
  "fulfilled [] = []"
| "fulfilled ((i, Inl e) # settled) = fulfilled settled"
| "fulfilled ((i, Inr x) # settled) = (i, x) # fulfilled settled"

definition Promise_all :: "(nat \<times> ('e + 'a)) list \<Rightarrow> 'e + 'a list" where
  "Promise_all settled =
     (case first_rejection settled of
        Some e \<Rightarrow> Inl e
      | None \<Rightarrow> Inr (in_input_order (fulfilled settled)))"

text \<open>Step 2: \<^verbatim>\<open>moviesWithProviders\<close>, or the rejection that reaches the \<^verbatim>\<open>catch\<close>. The
  replies that arrive after a rejection are still handled, so the state is the one after
  all of them.\<close>

definition lookup_all ::
  "time \<Rightarrow> (nat \<Rightarrow> rapid_data axios \<times> time) \<Rightarrow> movie_result list \<Rightarrow> server_state
   \<Rightarrow> (thrown + movie_with_providers list) \<times> server_state" where
  "lookup_all now upstream movieResults st =
     (let (looking, st1) = begin_lookups now movieResults st;
          (settled, st2) = resume_lookups upstream looking
                             (arrival_order upstream (length looking)) st1
      in (Promise_all settled, st2))"

text \<open>
  Step 3. \<^verbatim>\<open>serviceMovieMap\<close> is a plain object used as a dictionary: its own properties
  are an association list in creation order. A service name that is a property of
  \<^verbatim>\<open>Object.prototype\<close> reads as that inherited (truthy) value, which has no
  \<^verbatim>\<open>includes\<close> method, so the call throws a \<^verbatim>\<open>TypeError\<close>.
\<close>

definition Object_prototype_keys :: "string list" where
  "Object_prototype_keys =
     [''constructor'', ''__defineGetter__'', ''__defineSetter__'', ''hasOwnProperty'',
      ''__lookupGetter__'', ''__lookupSetter__'', ''isPrototypeOf'', ''propertyIsEnumerable'',
      ''toString'', ''valueOf'', ''__proto__'', ''toLocaleString'']"

definition serviceName :: "streaming_option \<Rightarrow> string option" where
  "serviceName provider =
     (case opt_service provider of
        None \<Rightarrow> None
      | Some s \<Rightarrow> (case truthy (svc_name s) of Some n \<Rightarrow> Some n | None \<Rightarrow> truthy (svc_id s)))"

type_synonym service_map = "(string \<times> string list) list"

definition add_provider :: "string \<Rightarrow> streaming_option \<Rightarrow> service_map \<Rightarrow> thrown + service_map" where
  "add_provider movie_title provider m =
     (case serviceName provider of
        None \<Rightarrow> Inr m
      | Some s \<Rightarrow>
          if s \<in> set Object_prototype_keys
          then Inl (Thrown ''serviceMovieMap[serviceName].includes is not a function'' False None)
          else (let m1 = (if map_of m s = None then m @ [(s, [])] else m)
                in case map_of m1 s of
                     None \<Rightarrow> Inr m1
                   | Some movieList \<Rightarrow>
                       if movie_title \<in> set movieList then Inr m1
                       else Inr (AList.update s (movieList @ [movie_title]) m1)))"

fun add_providers :: "string \<Rightarrow> streaming_option list \<Rightarrow> service_map \<Rightarrow> thrown + service_map" where
  "add_providers movie_title [] m = Inr m"
| "add_providers movie_title (p # ps) m =
     (case add_provider movie_title p m of
        Inl e \<Rightarrow> Inl e
      | Inr m1 \<Rightarrow> add_providers movie_title ps m1)"

text \<open>\<^verbatim>\<open>movie.providers?.flatrate\<close>: absent on \<^verbatim>\<open>null\<close> and on a cached array.\<close>

fun flatrate_of :: "movie_with_providers \<Rightarrow> (string \<times> streaming_option list) option" where
  "flatrate_of (NotFoundP q) = None"
| "flatrate_of (FoundP q mv (Movies ms)) = None"
| "flatrate_of (FoundP q mv (Providers p)) = Some (title mv, flatrate p)"

fun build_serviceMovieMap :: "movie_with_providers list \<Rightarrow> service_map \<Rightarrow> thrown + service_map" where
  "build_serviceMovieMap [] m = Inr m"
| "build_serviceMovieMap (mv # mvs) m =
     (case flatrate_of mv of
        None \<Rightarrow> build_serviceMovieMap mvs m
      | Some (t, fl) \<Rightarrow>
          (case add_providers t fl m of
             Inl e \<Rightarrow> Inl e
           | Inr m1 \<Rightarrow> build_serviceMovieMap mvs m1))"

text \<open>
  Step 4. \<^verbatim>\<open>Object.entries\<close> lists the own properties whose key is an array index (a
  canonical decimal numeral below \<open>2^32 - 1 = 4294967295\<close>) first, in ascending numeric order, and
  then the other string keys in creation order.
\<close>

definition isDigit :: "char \<Rightarrow> bool" where
  "isDigit c = (let n = (of_char c :: nat) in 48 \<le> n \<and> n \<le> 57)"

definition indexValue :: "string \<Rightarrow> int" where
  "indexValue s = foldl (\<lambda>a c. a * 10 + (of_char c - 48)) 0 s"

definition isArrayIndex :: "string \<Rightarrow> bool" where
  "isArrayIndex s =
     (s \<noteq> [] \<and> list_all isDigit s \<and> (s = ''0'' \<or> take 1 s \<noteq> ''0'') \<and> indexValue s < 4294967295)"

definition Object_entries :: "(string \<times> 'a) list \<Rightarrow> (string \<times> 'a) list" where
  "Object_entries m =
     sort_key (\<lambda>(k, v). indexValue k) (filter (\<lambda>(k, v). isArrayIndex k) m)
     @ filter (\<lambda>(k, v). \<not> isArrayIndex k) m"

text \<open>
  \<^verbatim>\<open>Math.round\<close> rounds to the nearest integer, a half upwards. The quotient is taken
  in the rationals: for counts up to the ten movies a request may hold, the double
  \<^verbatim>\<open>(movieList.length / movies.length) * 100\<close> rounds to the same integer.
\<close>

definition Math_round :: "rat \<Rightarrow> int" where
  "Math_round x = \<lfloor>x + 1 / 2\<rfloor>"

definition ranking_entry :: "nat \<Rightarrow> string \<times> string list \<Rightarrow> service_entry" where
  "ranking_entry requested e =
     (case e of (s, movieList) \<Rightarrow>
        \<lparr>service = s, movieCount = length movieList, movies = movieList,
         coverage = Math_round ((of_nat (length movieList) / of_nat requested) * 100)\<rparr>)"

text \<open>\<^verbatim>\<open>.sort((a, b) => b.movieCount - a.movieCount)\<close>: \<^verbatim>\<open>Array.prototype.sort\<close> is stable,
  as is the insertion sort \<open>sort_key\<close>.\<close>

definition serviceRanking :: "nat \<Rightarrow> service_map \<Rightarrow> service_entry list" where
  "serviceRanking requested m =
     sort_key (\<lambda>e. - int (movieCount e)) (map (ranking_entry requested) (Object_entries m))"

fun mwp_found :: "movie_with_providers \<Rightarrow> bool" where
  "mwp_found (NotFoundP q) = False"
| "mwp_found (FoundP q mv d) = True"

fun mwp_title :: "movie_with_providers \<Rightarrow> string" where
  "mwp_title (NotFoundP q) = []"
| "mwp_title (FoundP q mv d) = title mv"

definition notOnSubscription :: "movie_with_providers list \<Rightarrow> service_map \<Rightarrow> string list" where
  "notOnSubscription mwps m =
     map mwp_title
       (filter (\<lambda>mv. mwp_found mv \<and> mwp_title mv \<notin> set (concat (map snd m))) mwps)"

fun movie_found :: "movie_result \<Rightarrow> bool" where
  "movie_found (NotFound q) = False"
| "movie_found (Found q mv) = True"

fun movie_name :: "movie_result \<Rightarrow> string" where
  "movie_name (NotFound q) = q"
| "movie_name (Found q mv) = q"

text \<open>\<^verbatim>\<open>p => p.service?.name\<close> followed by \<^verbatim>\<open>.filter(Boolean)\<close>.\<close>

definition subscriptionNames :: "streaming_option list \<Rightarrow> string list" where
  "subscriptionNames fl =
     List.map_filter (\<lambda>p. case opt_service p of None \<Rightarrow> None | Some s \<Rightarrow> truthy (svc_name s)) fl"

fun movie_detail_of :: "movie_with_providers \<Rightarrow> movie_detail" where
  "movie_detail_of (NotFoundP q) =
     \<lparr>searchQuery = q, detail_title = None, detail_year = None, found = False,
      subscriptionServices = []\<rparr>"
| "movie_detail_of (FoundP q mv d) =
     \<lparr>searchQuery = q, detail_title = truthy (Some (title mv)), detail_year = truthy (Some (year mv)),
      found = True,
      subscriptionServices = (case d of Movies ms \<Rightarrow> [] | Providers p \<Rightarrow> subscriptionNames (flatrate p))\<rparr>"

text \<open>Steps 3 to 5 and the report, from the two arrays of the handler.\<close>

definition analyze ::
  "nat \<Rightarrow> movie_result list \<Rightarrow> movie_with_providers list \<Rightarrow> thrown + bundle_report" where
  "analyze requested movieResults moviesWithProviders =
     (case build_serviceMovieMap moviesWithProviders [] of
        Inl e \<Rightarrow> Inl e
      | Inr serviceMovieMap \<Rightarrow>
          (let ranking = serviceRanking requested serviceMovieMap
           in Inr \<lparr>totalMovies = requested,
                   foundMovies = length (filter movie_found movieResults),
                   notFoundMovies = map movie_name (filter (\<lambda>m. \<not> movie_found m) movieResults),
                   bestService = (case ranking of [] \<Rightarrow> None | e # es \<Rightarrow> Some e),
                   allServices = ranking,
                   notOnAnySubscription = notOnSubscription moviesWithProviders serviceMovieMap,
                   movieDetails = map movie_detail_of moviesWithProviders\<rparr>))"

text \<open>The \<^verbatim>\<open>catch\<close> of the bundle handler.\<close>

definition bundle_catch :: "thrown \<Rightarrow> http_response" where
  "bundle_catch e =
     (if thrown_rateLimited e
      then Response (if thrown_status e = Some 429 then 429 else 402)
             (ErrorJson (if thrown_status e = Some 429
                         then ''RapidAPI rate limit exceeded. Please try again later.''
                         else ''RapidAPI monthly quota exceeded (1000 requests/month)'')
                True (Some ''rapidapi''))
      else Response 500 (ErrorJson ''Failed to analyze movies'' False None))"

text \<open>
  \<^verbatim>\<open>app.post('/api/bundle')\<close>. \<open>body_movies\<close> is \<^verbatim>\<open>req.body.movies\<close>, \<open>None\<close> when it is missing
  or not an array. \<open>now1\<close> and \<open>now2\<close> are the clocks at which the searches and the
  provider lookups are started.
\<close>

definition bundle_route ::
  "string list option \<Rightarrow> time \<Rightarrow> (nat \<Rightarrow> omdb_data axios \<times> time) \<Rightarrow> time
   \<Rightarrow> (nat \<Rightarrow> rapid_data axios \<times> time) \<Rightarrow> server_state \<Rightarrow> http_response \<times> server_state" where
  "bundle_route body_movies now1 omdbUpstream now2 rapidUpstream st =
     (case body_movies of
        None \<Rightarrow> (Response 400 (ErrorJson ''Please provide 1-10 movie names'' False None), st)
      | Some names \<Rightarrow>
          if names = [] \<or> length names > 10
          then (Response 400 (ErrorJson ''Please provide 1-10 movie names'' False None), st)
          else (let (movieResults, st2) = resolve_all now1 omdbUpstream names st;
                    (settled, st4) = lookup_all now2 rapidUpstream movieResults st2
                in case settled of
                     Inl e \<Rightarrow> (bundle_catch e, st4)
                   | Inr moviesWithProviders \<Rightarrow>
                       (case analyze (length names) movieResults moviesWithProviders of
                          Inl e \<Rightarrow> (bundle_catch e, st4)
                        | Inr report \<Rightarrow> (Response 200 (Report report), st4))))"

subsection \<open>Route 4: status\<close>

definition status_route :: "time \<Rightarrow> server_state \<Rightarrow> http_response \<times> server_state" where
  "status_route now st =
     (let st1 = checkOmdbReset now st
      in (Response 200 (Status
            \<lparr>rapidApi_remaining = remaining (rapidApi (apiUsage st1)),
             rapidApi_limit = limit (rapidApi (apiUsage st1)),
             estimatedDailyUsage = dailyCount (omdb (apiUsage st1)),
             cache_entries = cache_size (cache st1)\<rparr>), st1))"

subsection \<open>Reference definitions for the bundle claims\<close>

text \<open>
  What the provider lookup of one movie of a batch comes to, written as a function of the
  cache \<open>c\<close> at the start of step 2 and of the reply to the movie's own request only:
  a cached object if there is a fresh one, the classified answer of the upstream, a
  rejection of the batch on status 429 or 402, and the empty object on any other failure.
  The handler's step 2 is compared with it.
\<close>

fun lookup_outcome ::
  "time \<Rightarrow> (string, cache_data) cache_map \<Rightarrow> rapid_data axios \<Rightarrow> movie_result
   \<Rightarrow> thrown + movie_with_providers" where
  "lookup_outcome now c reply (NotFound q) = Inr (NotFoundP q)"
| "lookup_outcome now c reply (Found q mv) =
     (case fst (getFromCache now (providers_key (id' mv)) c) of
        Some d \<Rightarrow> Inr (FoundP q mv d)
      | None \<Rightarrow>
          (case reply of
             Resolved d \<Rightarrow>
               Inr (FoundP q mv (Providers
                 \<lparr>link = None,
                  flatrate = filter (\<lambda>opt. opt_type opt = ''subscription'') (indiaOptions d),
                  rent = filter (\<lambda>opt. opt_type opt = ''rent'') (indiaOptions d),
                  buy = filter (\<lambda>opt. opt_type opt = ''buy'') (indiaOptions d),
                  notFound = False, message = None\<rparr>))
           | Rejected status \<Rightarrow>
               if status = Some 429 then Inl (Thrown ''Rate limit exceeded'' True (Some 429))
               else if status = Some 402 then Inl (Thrown ''Monthly quota exceeded'' True (Some 402))
               else Inr (FoundP q mv (Providers emptyProviders))))"

text \<open>
  The service keys in the order in which the scan of step 3 meets them (movies in input
  order, the subscription options of each movie in upstream order), and the order of
  first encounter: every key once, at the place of its first occurrence.
\<close>

definition encountered :: "movie_with_providers list \<Rightarrow> string list" where
  "encountered mwps =
     concat (map (\<lambda>mv. case flatrate_of mv of
                          None \<Rightarrow> []
                        | Some (t, fl) \<Rightarrow> List.map_filter serviceName fl) mwps)"

definition first_seen :: "'a list \<Rightarrow> 'a list" where
  "first_seen xs = rev (remdups (rev xs))"

text \<open>
  The order in which a plain object enumerates its own string keys, given the order
  \<open>ks\<close> of their creation: the array indices first, by ascending value, then the other
  keys as created.
\<close>

definition property_order :: "string list \<Rightarrow> string list" where
  "property_order ks =
     sort_key indexValue (filter isArrayIndex ks) @ filter (\<lambda>k. \<not> isArrayIndex k) ks"

text \<open>Sample data for the concrete instances: an OMDb answer with one match for a title,
  a subscription option of a service, and an availability answer listing services.\<close>

definition sample_match :: "string \<Rightarrow> omdb_data axios" where
  "sample_match t =
     Resolved \<lparr>Error = None,
               Search = Some [\<lparr>imdbID = ''tt-'' @ t, Title = t, Year = ''1999'', Poster = ''N/A''\<rparr>]\<rparr>"

definition sample_movie :: "string \<Rightarrow> movie" where
  "sample_movie t = \<lparr>id' = ''tt-'' @ t, title = t, year = ''1999'', poster = ''N/A''\<rparr>"

definition subscription :: "string \<Rightarrow> streaming_option" where
  "subscription s =
     \<lparr>opt_type = ''subscription'', opt_service = Some \<lparr>svc_name = Some s, svc_id = Some s\<rparr>,
      opt_link = ''https://example.org/'' @ s\<rparr>"

definition sample_availability :: "string list \<Rightarrow> rapid_data axios" where
  "sample_availability services =
     Resolved \<lparr>headers = \<lparr>ratelimit_remaining = None, ratelimit_limit = None\<rparr>,
               streamingOptions_in = Some (map subscription services), imdbLink = None\<rparr>"

subsection \<open>Facts about the cache store\<close>

lemma map_of_setCache:
  "map_of (setCache t k v c) = (map_of c)(k \<mapsto> \<lparr>data = v, timestamp = t\<rparr>)"
  by (simp add: setCache_def update_conv')

lemma length_delete_present:
  "map_of c k = Some e \<Longrightarrow> length (AList.delete k c) < length c"
proof (induction c)
  case Nil
  then show ?case by simp
next
  case (Cons p c)
  show ?case
  proof (cases "fst p = k")
    case True
    have "length (AList.delete k c) \<le> length c"
      by (rule length_delete_le)
    moreover have "AList.delete k (p # c) = AList.delete k c"
      using True by (cases p) simp
    ultimately show ?thesis by simp
  next
    case False
    then have "AList.delete k (p # c) = p # AList.delete k c" and "map_of c k = Some e"
      using Cons.prems by (cases p; simp)+
    with Cons.IH show ?thesis by simp
  qed
qed

lemma getFromCache_fresh:
  "map_of c k = Some e \<Longrightarrow> now - timestamp e \<le> CACHE_TTL \<Longrightarrow>
   getFromCache now k c = (Some (data e), c)"
  by (simp add: getFromCache_def)

lemma getFromCache_expired:
  "map_of c k = Some e \<Longrightarrow> now - timestamp e > CACHE_TTL \<Longrightarrow>
   getFromCache now k c = (None, AList.delete k c)"
  by (simp add: getFromCache_def)

text \<open>
  Claim C3. A value stored under a key at time \<open>t\<close> is returned unchanged by a lookup at
  any time \<open>now\<close> with \<open>now - t \<le> CACHE_TTL\<close> (in particular while less than the TTL
  has elapsed), and the store is left as it was. A lookup with \<open>now - t > CACHE_TTL\<close>
  returns nothing, and the store it leaves has no entry for the key and is strictly
  smaller than before the lookup.
\<close>

theorem C3_cache_get_after_put:
  "(now - t \<le> CACHE_TTL \<longrightarrow>
      getFromCache now k (setCache t k v c) = (Some v, setCache t k v c)) \<and>
   (now - t > CACHE_TTL \<longrightarrow>
      fst (getFromCache now k (setCache t k v c)) = None \<and>
      map_of (snd (getFromCache now k (setCache t k v c))) k = None \<and>
      cache_size (snd (getFromCache now k (setCache t k v c))) < cache_size (setCache t k v c))"
proof -
  let ?e = "\<lparr>data = v, timestamp = t\<rparr>"
  have present: "map_of (setCache t k v c) k = Some ?e"
    by (simp add: map_of_setCache)
  have fresh: "getFromCache now k (setCache t k v c) = (Some v, setCache t k v c)"
    if "now - t \<le> CACHE_TTL"
    using getFromCache_fresh [OF present] that by simp
  have gone: "getFromCache now k (setCache t k v c) = (None, AList.delete k (setCache t k v c))"
    if "now - t > CACHE_TTL"
    using getFromCache_expired [OF present] that by simp
  have smaller: "length (AList.delete k (setCache t k v c)) < length (setCache t k v c)"
    by (rule length_delete_present [OF present])
  show ?thesis
    using fresh gone smaller by (simp add: cache_size_def delete_conv')
qed

theorem C3_cache_get_after_put_witness:
  "getFromCache 86400000 ''k'' (setCache 0 ''k'' (7::nat) []) = (Some 7, setCache 0 ''k'' 7 []) \<and>
   fst (getFromCache 86400001 ''k'' (setCache 0 ''k'' (7::nat) [])) = None \<and>
   cache_size (snd (getFromCache 86400001 ''k'' (setCache 0 ''k'' (7::nat) []))) = 0 \<and>
   cache_size (setCache 0 ''k'' (7::nat) []) = 1"
  using C3_cache_get_after_put [of 86400000 0 "''k''" "7::nat" "[]"]
    C3_cache_get_after_put [of 86400001 0 "''k''" "7::nat" "[]"]
  by (simp add: CACHE_TTL_def cache_size_def setCache_def)

subsection \<open>Streaming providers: route and bundle helper\<close>

lemma getFromCache_initial: "getFromCache now k (cache (initial_state t0)) = (None, [])"
  by (simp add: getFromCache_def initial_state_def)

lemma miss_obtain:
  assumes "fst (getFromCache now k c) = None"
  obtains c' where "getFromCache now k c = (None, c')"
  using assms by (cases "getFromCache now k c") auto

text \<open>
  Claim C8. When the upstream is asked and answers, the route (and likewise the bundle
  helper) puts into \<open>flatrate\<close>, \<open>rent\<close> and \<open>buy\<close> exactly the raw options whose
  \<open>type\<close> field equals \<^verbatim>\<open>subscription\<close>, \<^verbatim>\<open>rent\<close> and \<^verbatim>\<open>buy\<close>, in upstream order, and a
  record of any other type is in none of the three lists.
\<close>

theorem C8_classification:
  assumes "fst (getFromCache now (providers_key i) (cache st)) = None"
  shows "\<exists>p q. fst (providers_route i now (Resolved d) later st) = Response 200 (Data (Providers p)) \<and>
     fst (getProvidersForMovie i now (Resolved d) later st) = Inr (Providers q) \<and>
     flatrate p = filter (\<lambda>opt. opt_type opt = ''subscription'') (indiaOptions d) \<and>
     rent p = filter (\<lambda>opt. opt_type opt = ''rent'') (indiaOptions d) \<and>
     buy p = filter (\<lambda>opt. opt_type opt = ''buy'') (indiaOptions d) \<and>
     flatrate q = flatrate p \<and> rent q = rent p \<and> buy q = buy p \<and>
     (\<forall>r. opt_type r \<noteq> ''subscription'' \<and> opt_type r \<noteq> ''rent'' \<and> opt_type r \<noteq> ''buy'' \<longrightarrow>
          r \<notin> set (flatrate p) \<union> set (rent p) \<union> set (buy p))"
proof -
  obtain c where miss: "getFromCache now (providers_key i) (cache st) = (None, c)"
    using assms by (rule miss_obtain)
  show ?thesis
    by (simp add: providers_route_def getProvidersForMovie_def getProviders_begin_def
        getProviders_resume_def miss Let_def)
qed

theorem C8_classification_witness:
  "fst (getFromCache 0 (providers_key ''tt1'') (cache (initial_state 0))) = None \<and>
   (\<exists>p. fst (providers_route ''tt1'' 0
            (Resolved \<lparr>headers = \<lparr>ratelimit_remaining = None, ratelimit_limit = None\<rparr>,
                       streamingOptions_in = Some
                         [\<lparr>opt_type = ''subscription'', opt_service = None, opt_link = ''a''\<rparr>,
                          \<lparr>opt_type = ''rent'', opt_service = None, opt_link = ''b''\<rparr>,
                          \<lparr>opt_type = ''unknown'', opt_service = None, opt_link = ''c''\<rparr>],
                       imdbLink = None\<rparr>) 1 (initial_state 0))
          = Response 200 (Data (Providers p)) \<and>
        flatrate p = [\<lparr>opt_type = ''subscription'', opt_service = None, opt_link = ''a''\<rparr>] \<and>
        rent p = [\<lparr>opt_type = ''rent'', opt_service = None, opt_link = ''b''\<rparr>] \<and>
        buy p = [] \<and>
        \<lparr>opt_type = ''unknown'', opt_service = None, opt_link = ''c''\<rparr>
          \<notin> set (flatrate p) \<union> set (rent p) \<union> set (buy p))"
proof -
  have miss: "fst (getFromCache 0 (providers_key ''tt1'') (cache (initial_state 0))) = None"
    by (simp add: getFromCache_initial)
  show ?thesis
    using C8_classification [OF miss, of
        "\<lparr>headers = \<lparr>ratelimit_remaining = None, ratelimit_limit = None\<rparr>,
          streamingOptions_in = Some
            [\<lparr>opt_type = ''subscription'', opt_service = None, opt_link = ''a''\<rparr>,
             \<lparr>opt_type = ''rent'', opt_service = None, opt_link = ''b''\<rparr>,
             \<lparr>opt_type = ''unknown'', opt_service = None, opt_link = ''c''\<rparr>],
          imdbLink = None\<rparr>" 1] miss
    by (auto simp add: indiaOptions_def)
qed

text \<open>
  Claim C4, as amended. When the upstream is asked and answers 404, the lookup succeeds on
  both paths with empty \<open>flatrate\<close>, \<open>rent\<close> and \<open>buy\<close> lists; the result of the
  \<^verbatim>\<open>/api/providers\<close> route carries \<open>notFound = true\<close>, the result of the bundle helper
  \<^verbatim>\<open>getProvidersForMovie\<close> carries no \<open>notFound\<close> field.
\<close>

theorem C4_not_found_is_success:
  assumes "fst (getFromCache now (providers_key i) (cache st)) = None"
  shows "fst (providers_route i now (Rejected (Some 404)) later st) =
           Response 200 (Data (Providers
             \<lparr>link = None, flatrate = [], rent = [], buy = [], notFound = True, message = None\<rparr>)) \<and>
         fst (getProvidersForMovie i now (Rejected (Some 404)) later st) =
           Inr (Providers
             \<lparr>link = None, flatrate = [], rent = [], buy = [], notFound = False, message = None\<rparr>)"
proof -
  obtain c where miss: "getFromCache now (providers_key i) (cache st) = (None, c)"
    using assms by (rule miss_obtain)
  show ?thesis
    by (simp add: providers_route_def getProvidersForMovie_def getProviders_begin_def
        getProviders_resume_def miss Let_def emptyProviders_def)
qed

theorem C4_not_found_is_success_witness:
  "fst (getFromCache 0 (providers_key ''tt1'') (cache (initial_state 0))) = None \<and>
   fst (providers_route ''tt1'' 0 (Rejected (Some 404)) 1 (initial_state 0)) =
           Response 200 (Data (Providers
             \<lparr>link = None, flatrate = [], rent = [], buy = [], notFound = True, message = None\<rparr>)) \<and>
   fst (getProvidersForMovie ''tt1'' 0 (Rejected (Some 404)) 1 (initial_state 0)) =
           Inr (Providers
             \<lparr>link = None, flatrate = [], rent = [], buy = [], notFound = False, message = None\<rparr>)"
proof -
  have miss: "fst (getFromCache 0 (providers_key ''tt1'') (cache (initial_state 0))) = None"
    by (simp add: getFromCache_initial)
  show ?thesis
    using C4_not_found_is_success [OF miss, of 1] miss by simp
qed

text \<open>
  Claim C4 as stated fails on the bundle path: for the title \<^verbatim>\<open>tt1\<close>, unknown upstream
  (404), the helper returns the plain empty object, without \<open>notFound\<close>.
\<close>

theorem C4_helper_not_found_counterexample:
  "fst (getProvidersForMovie ''tt1'' 0 (Rejected (Some 404)) 1 (initial_state 0)) =
     Inr (Providers \<lparr>link = None, flatrate = [], rent = [], buy = [], notFound = False, message = None\<rparr>)"
  by (simp add: getProvidersForMovie_def getProviders_begin_def getProviders_resume_def
      getFromCache_initial Let_def emptyProviders_def)

text \<open>
  Claim C10. The route and the bundle helper use the same key, \<^verbatim>\<open>providers:\<close> followed by
  the title id. When the helper fetches a title from the upstream, the object it caches
  under that key has no \<open>link\<close> field (the object the route caches under the same key for
  the same answer has one), and a request to the route for that title, at any clock within
  the TTL of the entry, is answered with that cached object, without a call to the upstream
  and without a change of the state.
\<close>

theorem C10_bundle_entry_has_no_link:
  assumes "fst (getFromCache now (''providers:'' @ i) (cache st)) = None"
      and "now' - later \<le> CACHE_TTL"
  shows "\<exists>p st1. getProvidersForMovie i now (Resolved d) later st = (Inr (Providers p), st1) \<and>
           link p = None \<and>
           map_of (cache st1) (''providers:'' @ i) = Some \<lparr>data = Providers p, timestamp = later\<rparr> \<and>
           providers_route i now' reply' later' st1 = (Response 200 (Data (Providers p)), st1) \<and>
           (\<exists>p' st1'. providers_route i now (Resolved d) later st =
                         (Response 200 (Data (Providers p')), st1') \<and>
                 map_of (cache st1') (''providers:'' @ i) =
                   Some \<lparr>data = Providers p', timestamp = later\<rparr> \<and>
                 link p' \<noteq> None \<and> flatrate p' = flatrate p \<and> rent p' = rent p \<and> buy p' = buy p)"
proof -
  have key: "providers_key i = ''providers:'' @ i"
    by (simp add: providers_key_def)
  obtain c where miss: "getFromCache now (providers_key i) (cache st) = (None, c)"
    using assms(1) unfolding key [symmetric] by (rule miss_obtain)
  let ?p = "\<lparr>link = None,
             flatrate = filter (\<lambda>opt. opt_type opt = ''subscription'') (indiaOptions d),
             rent = filter (\<lambda>opt. opt_type opt = ''rent'') (indiaOptions d),
             buy = filter (\<lambda>opt. opt_type opt = ''buy'') (indiaOptions d),
             notFound = False, message = None\<rparr>"
  let ?p' = "?p\<lparr>link := Some (case truthy (imdbLink d) of None \<Rightarrow> [] | Some l \<Rightarrow> l)\<rparr>"
  let ?st0 = "updateRapidApiUsage (headers d) (st\<lparr>cache := c, rapidRequests := rapidRequests st @ [i]\<rparr>)"
  let ?st1 = "?st0\<lparr>cache := setCache later (providers_key i) (Providers ?p) (cache ?st0)\<rparr>"
  let ?st1' = "?st0\<lparr>cache := setCache later (providers_key i) (Providers ?p') (cache ?st0)\<rparr>"
  have run: "getProvidersForMovie i now (Resolved d) later st = (Inr (Providers ?p), ?st1)"
    by (simp add: getProvidersForMovie_def getProviders_begin_def getProviders_resume_def miss Let_def)
  have entry: "map_of (cache ?st1) (providers_key i) = Some \<lparr>data = Providers ?p, timestamp = later\<rparr>"
    by (simp add: map_of_setCache)
  have hit: "getFromCache now' (providers_key i) (cache ?st1) = (Some (Providers ?p), cache ?st1)"
    using getFromCache_fresh [OF entry] assms(2) by simp
  have served: "providers_route i now' reply' later' ?st1 = (Response 200 (Data (Providers ?p)), ?st1)"
    unfolding providers_route_def Let_def hit by simp
  have own: "providers_route i now (Resolved d) later st = (Response 200 (Data (Providers ?p')), ?st1')"
    by (simp add: providers_route_def miss Let_def)
  have own_entry: "map_of (cache ?st1') (providers_key i) = Some \<lparr>data = Providers ?p', timestamp = later\<rparr>"
    by (simp add: map_of_setCache)
  have route: "\<exists>p' st1'. providers_route i now (Resolved d) later st =
                         (Response 200 (Data (Providers p')), st1') \<and>
                 map_of (cache st1') (''providers:'' @ i) =
                   Some \<lparr>data = Providers p', timestamp = later\<rparr> \<and>
                 link p' \<noteq> None \<and> flatrate p' = flatrate ?p \<and> rent p' = rent ?p \<and> buy p' = buy ?p"
    using own own_entry by (intro exI [of _ ?p'] exI [of _ ?st1']) (simp add: key)
  show ?thesis
    using run entry served route by (intro exI [of _ ?p] exI [of _ ?st1]) (simp add: key)
qed

theorem C10_bundle_entry_has_no_link_witness:
  "fst (getFromCache 0 (''providers:'' @ ''tt1'') (cache (initial_state 0))) = None \<and>
   (5::int) - 1 \<le> CACHE_TTL \<and>
   (\<exists>p st1. getProvidersForMovie ''tt1'' 0
               (Resolved \<lparr>headers = \<lparr>ratelimit_remaining = None, ratelimit_limit = None\<rparr>,
                          streamingOptions_in = None, imdbLink = Some ''https://imdb.example/tt1''\<rparr>)
               1 (initial_state 0) = (Inr (Providers p), st1) \<and>
      link p = None \<and>
      map_of (cache st1) ''providers:tt1'' = Some \<lparr>data = Providers p, timestamp = 1\<rparr> \<and>
      providers_route ''tt1'' 5 (Rejected None) 6 st1 = (Response 200 (Data (Providers p)), st1))"
proof -
  have miss: "fst (getFromCache 0 (''providers:'' @ ''tt1'') (cache (initial_state 0))) = None"
    by (simp add: getFromCache_def initial_state_def)
  have ttl: "(5::int) - 1 \<le> CACHE_TTL"
    by (simp add: CACHE_TTL_def)
  have "\<exists>p st1. getProvidersForMovie ''tt1'' 0
               (Resolved \<lparr>headers = \<lparr>ratelimit_remaining = None, ratelimit_limit = None\<rparr>,
                          streamingOptions_in = None, imdbLink = Some ''https://imdb.example/tt1''\<rparr>)
               1 (initial_state 0) = (Inr (Providers p), st1) \<and>
      link p = None \<and>
      map_of (cache st1) (''providers:'' @ ''tt1'') = Some \<lparr>data = Providers p, timestamp = 1\<rparr> \<and>
      providers_route ''tt1'' 5 (Rejected None) 6 st1 = (Response 200 (Data (Providers p)), st1)"
    using C10_bundle_entry_has_no_link [OF miss ttl, of
        "\<lparr>headers = \<lparr>ratelimit_remaining = None, ratelimit_limit = None\<rparr>,
          streamingOptions_in = None, imdbLink = Some ''https://imdb.example/tt1''\<rparr>"
        "Rejected None" 6]
    by blast
  then show ?thesis
    using miss ttl by simp
qed

subsection \<open>The usage counters across the bundle helpers\<close>

lemma getFromCache_cases:
  "(\<exists>c'. getFromCache now k c = (None, c')) \<or> (\<exists>d. getFromCache now k c = (Some d, c))"
  by (simp add: getFromCache_def split: option.splits)

lemma omdb_updateRapidApiUsage [simp]: "omdb (apiUsage (updateRapidApiUsage h st)) = omdb (apiUsage st)"
  by (simp add: updateRapidApiUsage_def Let_def split: option.splits)

lemma apiUsage_searchMovie_begin: "apiUsage (snd (searchMovie_begin now q st)) = apiUsage st"
  by (simp add: searchMovie_begin_def Let_def split: prod.splits option.splits)

lemma apiUsage_searchMovie_resume: "apiUsage (snd (searchMovie_resume q reply later st)) = apiUsage st"
  by (simp add: searchMovie_resume_def Let_def split: axios.splits option.splits)

lemma apiUsage_searchMovie: "apiUsage (snd (searchMovie q now reply later st)) = apiUsage st"
proof (cases "searchMovie_begin now q st")
  case (Pair p st1)
  then have "apiUsage st1 = apiUsage st"
    using apiUsage_searchMovie_begin [of now q st] by simp
  with Pair show ?thesis
    by (cases p) (simp_all add: searchMovie_def apiUsage_searchMovie_resume)
qed

lemma apiUsage_begin_searches: "apiUsage (snd (begin_searches now qs st)) = apiUsage st"
proof (induction qs arbitrary: st)
  case Nil
  then show ?case by simp
next
  case (Cons q qs)
  show ?case
    using Cons.IH [of "snd (searchMovie_begin now q st)"] apiUsage_searchMovie_begin [of now q st]
    by (simp add: split_beta Let_def)
qed

lemma apiUsage_resume_search: "apiUsage (snd (resume_search x reply st)) = apiUsage st"
proof (cases x)
  case (Pair q p)
  then show ?thesis
    using apiUsage_searchMovie_resume [of q "fst reply" "snd reply" st]
    by (cases p) (simp_all add: resume_search_def split_beta)
qed

lemma apiUsage_resume_searches: "apiUsage (snd (resume_searches up ps order st)) = apiUsage st"
proof (induction order arbitrary: st)
  case Nil
  then show ?case by simp
next
  case (Cons i order)
  show ?case
    using Cons.IH [of "snd (resume_search (ps ! i) (up i) st)"]
      apiUsage_resume_search [of "ps ! i" "up i" st]
    by (simp add: split_beta)
qed

lemma omdb_getProviders_begin: "omdb (apiUsage (snd (getProviders_begin now i st))) = omdb (apiUsage st)"
  by (simp add: getProviders_begin_def Let_def split: prod.splits option.splits)

lemma omdb_getProviders_resume: "omdb (apiUsage (snd (getProviders_resume i reply later st))) = omdb (apiUsage st)"
  by (simp add: getProviders_resume_def Let_def split: axios.splits)

lemma omdb_begin_lookups: "omdb (apiUsage (snd (begin_lookups now ms st))) = omdb (apiUsage st)"
proof (induction now ms st rule: begin_lookups.induct)
  case (1 now st)
  then show ?case by simp
next
  case (2 now q ms st)
  then show ?case by (simp add: split_beta)
next
  case (3 now q mv ms st)
  show ?case
    using "3.IH" [of "(fst (getProviders_begin now (id' mv) st), snd (getProviders_begin now (id' mv) st))"
                     "fst (getProviders_begin now (id' mv) st)" "snd (getProviders_begin now (id' mv) st)"]
      omdb_getProviders_begin [of now "id' mv" st]
    by (simp add: split_beta Let_def)
qed

lemma omdb_resume_lookup: "omdb (apiUsage (snd (resume_lookup x reply st))) = omdb (apiUsage st)"
proof (cases x)
  case (Pair m p)
  show ?thesis
  proof (cases m)
    case (NotFound q)
    with Pair show ?thesis by simp
  next
    case (Found q mv)
    with Pair show ?thesis
      using omdb_getProviders_resume [of "id' mv" "fst reply" "snd reply" st]
      by (cases p) (simp_all add: split_beta)
  qed
qed

lemma omdb_resume_lookups: "omdb (apiUsage (snd (resume_lookups up ps order st))) = omdb (apiUsage st)"
proof (induction order arbitrary: st)
  case Nil
  then show ?case by simp
next
  case (Cons i order)
  show ?case
    using Cons.IH [of "snd (resume_lookup (ps ! i) (up i) st)"]
      omdb_resume_lookup [of "ps ! i" "up i" st]
    by (simp add: split_beta)
qed

lemma apiUsage_resolve_all: "apiUsage (snd (resolve_all now up names st)) = apiUsage st"
  by (simp add: resolve_all_def split_beta apiUsage_resume_searches apiUsage_begin_searches)

lemma omdb_lookup_all: "omdb (apiUsage (snd (lookup_all now up ms st))) = omdb (apiUsage st)"
  by (simp add: lookup_all_def split_beta omdb_resume_lookups omdb_begin_lookups)

lemma bundle_route_valid:
  assumes "names \<noteq> []" "length names \<le> 10"
  shows "bundle_route (Some names) now1 up1 now2 up2 st =
    (let r1 = resolve_all now1 up1 names st;
         r2 = lookup_all now2 up2 (fst r1) (snd r1)
     in (case fst r2 of
           Inl e \<Rightarrow> bundle_catch e
         | Inr mwps \<Rightarrow> (case analyze (length names) (fst r1) mwps of
                          Inl e \<Rightarrow> bundle_catch e
                        | Inr report \<Rightarrow> Response 200 (Report report)), snd r2))"
  using assms by (simp add: bundle_route_def split_beta Let_def split: sum.splits)

lemma omdb_bundle_route:
  "omdb (apiUsage (snd (bundle_route body_movies now1 up1 now2 up2 st))) = omdb (apiUsage st)"
proof (cases body_movies)
  case None
  then show ?thesis by (simp add: bundle_route_def)
next
  case (Some names)
  show ?thesis
  proof (cases "names = [] \<or> length names > 10")
    case True
    with Some show ?thesis by (auto simp add: bundle_route_def)
  next
    case False
    then have v: "names \<noteq> []" "length names \<le> 10" by auto
    show ?thesis
      unfolding Some bundle_route_valid [OF v] Let_def
      by (simp add: omdb_lookup_all apiUsage_resolve_all)
  qed
qed

text \<open>
  Claim C9. \<^verbatim>\<open>searchMovie\<close> leaves the usage counters as they are, whatever the cache
  holds and whatever OMDb answers, and a whole bundle request leaves the OMDb counter
  (\<open>dailyCount\<close> and \<open>lastReset\<close>) as it is, although it issues searches. The
  \<^verbatim>\<open>/api/search\<close> handler counts: when it asks OMDb and the request resolves, the daily
  count is one more than after the lazy reset.
\<close>

theorem C9_bundle_leaves_search_counter:
  "apiUsage (snd (searchMovie q now reply later st)) = apiUsage st \<and>
   omdb (apiUsage (snd (bundle_route body_movies now1 up1 now2 up2 st))) = omdb (apiUsage st) \<and>
   (q \<noteq> [] \<and> fst (getFromCache now (search_key q) (cache st)) = None \<longrightarrow>
      dailyCount (omdb (apiUsage (snd (search_route (Some q) now (Resolved d) later st)))) =
        dailyCount (omdb (apiUsage (checkOmdbReset now st))) + 1)"
proof -
  have route: "dailyCount (omdb (apiUsage (snd (search_route (Some q) now (Resolved d) later st)))) =
        dailyCount (omdb (apiUsage (checkOmdbReset now st))) + 1"
    if nonempty: "q \<noteq> []" and absent: "fst (getFromCache now (search_key q) (cache st)) = None"
  proof -
    obtain c where miss: "getFromCache now (search_key q) (cache st) = (None, c)"
      using absent by (rule miss_obtain)
    show ?thesis
      using nonempty
      by (simp add: search_route_def truthy_def miss Let_def incr_omdb_def checkOmdbReset_def
          split: option.splits)
  qed
  show ?thesis
    using route by (simp add: apiUsage_searchMovie omdb_bundle_route)
qed

theorem C9_bundle_leaves_search_counter_witness:
  "omdbRequests (snd (bundle_route (Some [''Heat'']) 0
       (\<lambda>i. (Resolved \<lparr>Error = None, Search = Some
                 [\<lparr>imdbID = ''tt0113277'', Title = ''Heat'', Year = ''1995'', Poster = ''N/A''\<rparr>]\<rparr>, 1))
       2 (\<lambda>i. (Rejected None, 3)) (initial_state 0))) = [''Heat''] \<and>
   dailyCount (omdb (apiUsage (snd (bundle_route (Some [''Heat'']) 0
       (\<lambda>i. (Resolved \<lparr>Error = None, Search = Some
                 [\<lparr>imdbID = ''tt0113277'', Title = ''Heat'', Year = ''1995'', Poster = ''N/A''\<rparr>]\<rparr>, 1))
       2 (\<lambda>i. (Rejected None, 3)) (initial_state 0))))) = 0 \<and>
   ''Heat'' \<noteq> [] \<and> fst (getFromCache 0 (search_key ''Heat'') (cache (initial_state 0))) = None \<and>
   dailyCount (omdb (apiUsage (snd (search_route (Some ''Heat'') 0
       (Resolved \<lparr>Error = None, Search = Some
                 [\<lparr>imdbID = ''tt0113277'', Title = ''Heat'', Year = ''1995'', Poster = ''N/A''\<rparr>]\<rparr>)
       0 (initial_state 0))))) = 1"
proof -
  have calls: "omdbRequests (snd (bundle_route (Some [''Heat'']) 0
       (\<lambda>i. (Resolved \<lparr>Error = None, Search = Some
                 [\<lparr>imdbID = ''tt0113277'', Title = ''Heat'', Year = ''1995'', Poster = ''N/A''\<rparr>]\<rparr>, 1))
       2 (\<lambda>i. (Rejected None, 3)) (initial_state 0))) = [''Heat'']"
    by code_simp
  have miss: "fst (getFromCache 0 (search_key ''Heat'') (cache (initial_state 0))) = None"
    by (simp add: getFromCache_def initial_state_def)
  have start: "dailyCount (omdb (apiUsage (initial_state 0))) = 0"
     "dailyCount (omdb (apiUsage (checkOmdbReset 0 (initial_state 0)))) = 0"
    by (simp_all add: initial_state_def checkOmdbReset_def)
  show ?thesis
    using C9_bundle_leaves_search_counter [of "''Heat''" 0 "Rejected None" 0 "initial_state 0"
        "Some [''Heat'']" 0
        "\<lambda>i. (Resolved \<lparr>Error = None, Search = Some
                 [\<lparr>imdbID = ''tt0113277'', Title = ''Heat'', Year = ''1995'', Poster = ''N/A''\<rparr>]\<rparr>, 1)"
        2 "\<lambda>i. (Rejected None, 3)"
        "\<lparr>Error = None, Search = Some
                 [\<lparr>imdbID = ''tt0113277'', Title = ''Heat'', Year = ''1995'', Poster = ''N/A''\<rparr>]\<rparr>"]
      calls miss start
    by simp
qed

subsection \<open>Resolving a query twice\<close>

lemma cachedFirst_None [simp]: "cachedFirst None = None"
  by (simp add: cachedFirst_def)

text \<open>
  Claim C2, as amended. When the first resolution of a query misses the cache and OMDb
  answers with a non-empty \<^verbatim>\<open>Search\<close> list and no \<^verbatim>\<open>Error\<close>, it issues one upstream call
  and writes the cleaned top five under the key \<^verbatim>\<open>search:\<close> followed by the lower-cased,
  trimmed query; a second resolution of a query with the same normal form, at a clock
  within the TTL of that entry, returns the same result from the cache, issues no call and
  leaves the state as it is. This holds for \<^verbatim>\<open>searchMovie\<close> and for the \<^verbatim>\<open>/api/search\<close>
  handler.
\<close>

theorem C2_second_resolution_from_cache:
  assumes miss: "fst (getFromCache now1 (search_key q) (cache st)) = None"
      and noerr: "truthy (Error d) = None"
      and results: "Search d = Some (m # ms)"
      and same: "search_key q' = search_key q"
      and ttl: "now2 - later1 \<le> CACHE_TTL"
  shows "(\<exists>st1. searchMovie q now1 (Resolved d) later1 st = (Some (clean m), st1) \<and>
           map_of (cache st1) (''search:'' @ trim (toLowerCase q)) =
             Some \<lparr>data = Movies (map clean (take 5 (m # ms))), timestamp = later1\<rparr> \<and>
           omdbRequests st1 = omdbRequests st @ [q] \<and>
           searchMovie q' now2 reply2 later2 st1 = (Some (clean m), st1)) \<and>
        (q \<noteq> [] \<and> q' \<noteq> [] \<longrightarrow>
         (\<exists>st1. search_route (Some q) now1 (Resolved d) later1 st =
                  (Response 200 (Data (Movies (map clean (take 5 (m # ms))))), st1) \<and>
           map_of (cache st1) (''search:'' @ trim (toLowerCase q)) =
             Some \<lparr>data = Movies (map clean (take 5 (m # ms))), timestamp = later1\<rparr> \<and>
           omdbRequests st1 = omdbRequests st @ [q] \<and>
           search_route (Some q') now2 reply2 later2 st1 =
                  (Response 200 (Data (Movies (map clean (take 5 (m # ms))))), st1)))"
proof -
  obtain c where c: "getFromCache now1 (search_key q) (cache st) = (None, c)"
    using miss by (rule miss_obtain)
  define results where "results = map clean (take 5 (m # ms))"
  have results_hd: "results = clean m # map clean (take 4 ms)"
    by (simp add: results_def)
  let ?v = "Movies results"
  let ?e = "\<lparr>data = ?v, timestamp = later1\<rparr>"
  have fresh: "getFromCache now2 (search_key q') (setCache later1 (search_key q) ?v c0) =
      (Some ?v, setCache later1 (search_key q) ?v c0)" for c0
    using getFromCache_fresh [of "setCache later1 (search_key q) ?v c0" "search_key q" ?e now2] ttl same
    by (simp add: map_of_setCache)
  have first_cached: "cachedFirst (Some ?v) = Some (clean m)"
    by (simp add: cachedFirst_def results_hd)
  let ?st1 = "st\<lparr>cache := setCache later1 (search_key q) ?v c, omdbRequests := omdbRequests st @ [q]\<rparr>"
  have resume: "searchMovie_resume q (Resolved d) later1 (st\<lparr>cache := c, omdbRequests := omdbRequests st @ [q]\<rparr>)
      = (Some (clean m), ?st1)"
    using noerr results
    by (simp add: searchMovie_resume_def Let_def results_def [symmetric]) (simp add: results_hd)
  have first: "searchMovie q now1 (Resolved d) later1 st = (Some (clean m), ?st1)"
    by (simp add: searchMovie_def searchMovie_begin_def c Let_def resume)
  have second: "searchMovie q' now2 reply2 later2 ?st1 = (Some (clean m), ?st1)"
    by (simp add: searchMovie_def searchMovie_begin_def fresh first_cached Let_def)
  have key: "map_of (cache ?st1) (''search:'' @ trim (toLowerCase q)) = Some ?e"
    by (simp add: map_of_setCache search_key_def)
  have resolver: "\<exists>st1. searchMovie q now1 (Resolved d) later1 st = (Some (clean m), st1) \<and>
           map_of (cache st1) (''search:'' @ trim (toLowerCase q)) =
             Some \<lparr>data = Movies (map clean (take 5 (m # ms))), timestamp = later1\<rparr> \<and>
           omdbRequests st1 = omdbRequests st @ [q] \<and>
           searchMovie q' now2 reply2 later2 st1 = (Some (clean m), st1)"
    unfolding results_def [symmetric]
    using first second key by (intro exI [of _ ?st1]) simp
  let ?s0 = "checkOmdbReset now1 (st\<lparr>cache := c\<rparr>)"
  let ?st2 = "(incr_omdb (?s0\<lparr>omdbRequests := omdbRequests ?s0 @ [q]\<rparr>))
                \<lparr>cache := setCache later1 (search_key q) ?v c\<rparr>"
  have pres: "cache ?s0 = c" "omdbRequests ?s0 = omdbRequests st"
    by (simp_all add: checkOmdbReset_def)
  have rfirst: "search_route (Some q) now1 (Resolved d) later1 st = (Response 200 (Data ?v), ?st2)"
    if "q \<noteq> []"
    using that noerr results
    by (simp add: search_route_def truthy_def c Let_def incr_omdb_def pres) (simp add: results_hd)
  have rsecond: "search_route (Some q') now2 reply2 later2 ?st2 = (Response 200 (Data ?v), ?st2)"
    if "q' \<noteq> []"
    using that by (simp add: search_route_def truthy_def fresh Let_def)
  have rkey: "map_of (cache ?st2) (''search:'' @ trim (toLowerCase q)) = Some ?e"
    by (simp add: map_of_setCache search_key_def)
  have rlog: "omdbRequests ?st2 = omdbRequests st @ [q]"
    by (simp add: incr_omdb_def pres)
  have route: "q \<noteq> [] \<and> q' \<noteq> [] \<longrightarrow>
         (\<exists>st1. search_route (Some q) now1 (Resolved d) later1 st =
                  (Response 200 (Data (Movies (map clean (take 5 (m # ms))))), st1) \<and>
           map_of (cache st1) (''search:'' @ trim (toLowerCase q)) =
             Some \<lparr>data = Movies (map clean (take 5 (m # ms))), timestamp = later1\<rparr> \<and>
           omdbRequests st1 = omdbRequests st @ [q] \<and>
           search_route (Some q') now2 reply2 later2 st1 =
                  (Response 200 (Data (Movies (map clean (take 5 (m # ms))))), st1))"
    unfolding results_def [symmetric]
  proof
    assume "q \<noteq> [] \<and> q' \<noteq> []"
    then show "\<exists>st1. search_route (Some q) now1 (Resolved d) later1 st = (Response 200 (Data ?v), st1) \<and>
           map_of (cache st1) (''search:'' @ trim (toLowerCase q)) = Some ?e \<and>
           omdbRequests st1 = omdbRequests st @ [q] \<and>
           search_route (Some q') now2 reply2 later2 st1 = (Response 200 (Data ?v), st1)"
      using rfirst rsecond rkey rlog by (intro exI [of _ ?st2]) simp
  qed
  from resolver route show ?thesis ..
qed

theorem C2_second_resolution_from_cache_witness:
  "fst (getFromCache 0 (search_key '' HeAt '') (cache (initial_state 0))) = None \<and>
   search_key ''heat'' = search_key '' HeAt '' \<and>
   (2::int) - 1 \<le> CACHE_TTL \<and>
   (\<exists>st1. searchMovie '' HeAt '' 0
             (Resolved \<lparr>Error = None, Search = Some
                [\<lparr>imdbID = ''tt0113277'', Title = ''Heat'', Year = ''1995'', Poster = ''N/A''\<rparr>]\<rparr>)
             1 (initial_state 0) =
           (Some (clean \<lparr>imdbID = ''tt0113277'', Title = ''Heat'', Year = ''1995'', Poster = ''N/A''\<rparr>), st1) \<and>
         omdbRequests st1 = ['' HeAt ''] \<and>
         searchMovie ''heat'' 2 (Rejected None) 3 st1 =
           (Some (clean \<lparr>imdbID = ''tt0113277'', Title = ''Heat'', Year = ''1995'', Poster = ''N/A''\<rparr>), st1))"
proof -
  have miss: "fst (getFromCache 0 (search_key '' HeAt '') (cache (initial_state 0))) = None"
    by (simp add: getFromCache_initial)
  have noerr: "truthy (Error \<lparr>Error = None, Search = Some
                [\<lparr>imdbID = ''tt0113277'', Title = ''Heat'', Year = ''1995'', Poster = ''N/A''\<rparr>]\<rparr>) = None"
    by (simp add: truthy_def)
  have results: "Search \<lparr>Error = None, Search = Some
                [\<lparr>imdbID = ''tt0113277'', Title = ''Heat'', Year = ''1995'', Poster = ''N/A''\<rparr>]\<rparr> =
      Some (\<lparr>imdbID = ''tt0113277'', Title = ''Heat'', Year = ''1995'', Poster = ''N/A''\<rparr> # [])"
    by simp
  have same: "search_key ''heat'' = search_key '' HeAt ''"
    by code_simp
  have ttl: "(2::int) - 1 \<le> CACHE_TTL"
    by (simp add: CACHE_TTL_def)
  have start: "omdbRequests (initial_state 0) = []"
    by (simp add: initial_state_def)
  show ?thesis
    using C2_second_resolution_from_cache [OF miss noerr results same ttl, of "Rejected None" 3]
      miss same ttl start
    by auto
qed

text \<open>
  Claim C2 as stated fails for a query OMDb has no match for: the answer
  \<^verbatim>\<open>{Error: "Movie not found!"}\<close> is not cached, so resolving \<^verbatim>\<open>zzz\<close> at the clocks 0 and
  1 issues two upstream calls.
\<close>

theorem C2_not_found_counterexample:
  "omdbRequests (snd (searchMovie ''zzz'' 1 (Resolved \<lparr>Error = Some ''Movie not found!'', Search = None\<rparr>) 1
     (snd (searchMovie ''zzz'' 0 (Resolved \<lparr>Error = Some ''Movie not found!'', Search = None\<rparr>) 0
        (initial_state 0))))) = [''zzz'', ''zzz'']"
  by code_simp

subsection \<open>A rate limit of the search upstream during a bundle request\<close>

text \<open>
  Claim C1 at a concrete request. OMDb answers the search for the second of two names with
  its rate-limit error. The \<^verbatim>\<open>/api/search\<close> handler answers that reply with status 429;
  the bundle handler answers 200 with a report that lists the name as not found.
\<close>

theorem C1_bundle_on_search_rate_limit:
  "fst (search_route (Some ''Alien'') 0
          (Resolved \<lparr>Error = Some ''Request limit reached!'', Search = None\<rparr>) 1 (initial_state 0)) =
     Response 429 (ErrorJson ''OMDb daily limit reached (1000 requests/day)'' True (Some ''omdb'')) \<and>
   fst (bundle_route (Some [''Heat'', ''Alien'']) 0
          (\<lambda>i. if i = 0
                then (Resolved \<lparr>Error = None, Search = Some
                        [\<lparr>imdbID = ''tt0113277'', Title = ''Heat'', Year = ''1995'', Poster = ''N/A''\<rparr>]\<rparr>, 1)
                else (Resolved \<lparr>Error = Some ''Request limit reached!'', Search = None\<rparr>, 1))
          2 (\<lambda>i. (Rejected (Some 404), 3)) (initial_state 0)) =
     Response 200 (Report
       \<lparr>totalMovies = 2, foundMovies = 1, notFoundMovies = [''Alien''],
        bestService = None, allServices = [], notOnAnySubscription = [''Heat''],
        movieDetails =
          [\<lparr>searchQuery = ''Heat'', detail_title = Some ''Heat'', detail_year = Some ''1995'',
            found = True, subscriptionServices = []\<rparr>,
           \<lparr>searchQuery = ''Alien'', detail_title = None, detail_year = None,
            found = False, subscriptionServices = []\<rparr>]\<rparr>)"
  by code_simp

subsection \<open>The bundle report\<close>

lemma bundle_catch_not_report: "bundle_catch e \<noteq> Response 200 (Report r)"
  by (simp add: bundle_catch_def)

lemma bundle_report_origin:
  assumes "fst (bundle_route body_movies now1 up1 now2 up2 st) = Response 200 (Report r)"
  shows "\<exists>names mrs mwps. body_movies = Some names \<and> names \<noteq> [] \<and> length names \<le> 10 \<and>
           analyze (length names) mrs mwps = Inr r"
proof (cases body_movies)
  case None
  with assms show ?thesis by (simp add: bundle_route_def)
next
  case (Some names)
  show ?thesis
  proof (cases "names = [] \<or> length names > 10")
    case True
    with Some assms show ?thesis by (auto simp add: bundle_route_def)
  next
    case False
    then have v: "names \<noteq> []" "length names \<le> 10" by auto
    let ?r1 = "resolve_all now1 up1 names st"
    let ?r2 = "lookup_all now2 up2 (fst ?r1) (snd ?r1)"
    from assms have resp: "(case fst ?r2 of
           Inl e \<Rightarrow> bundle_catch e
         | Inr mwps \<Rightarrow> (case analyze (length names) (fst ?r1) mwps of
                          Inl e \<Rightarrow> bundle_catch e
                        | Inr report \<Rightarrow> Response 200 (Report report))) = Response 200 (Report r)"
      unfolding Some bundle_route_valid [OF v] Let_def by simp
    then obtain mwps where "analyze (length names) (fst ?r1) mwps = Inr r"
      by (auto simp add: bundle_catch_not_report split: sum.splits)
    with Some v show ?thesis by blast
  qed
qed

lemma analyze_Inr:
  assumes "analyze n mrs mwps = Inr r"
  shows "\<exists>m. build_serviceMovieMap mwps [] = Inr m \<and> allServices r = serviceRanking n m \<and>
             totalMovies r = n"
  using assms by (auto simp add: analyze_def Let_def split: sum.splits)

lemma serviceRanking_entry:
  assumes "e \<in> set (serviceRanking n m)"
  shows "movieCount e = length (movies e) \<and>
         coverage e = Math_round ((of_nat (movieCount e) / of_nat n) * 100)"
  using assms by (auto simp add: serviceRanking_def ranking_entry_def)

text \<open>
  Claim C7. In every report the bundle handler sends, \<open>totalMovies\<close> is the number of
  names in the request (found or not), and every entry of \<open>allServices\<close> has
  \<open>movieCount\<close> equal to the number of titles it lists and \<open>coverage\<close> equal to
  \<open>100 * movieCount / totalMovies\<close> rounded to the nearest integer (a half upwards).
\<close>

theorem C7_coverage_percent:
  assumes "fst (bundle_route (Some names) now1 up1 now2 up2 st) = Response 200 (Report r)"
  shows "totalMovies r = length names \<and>
         (\<forall>e \<in> set (allServices r).
            movieCount e = length (movies e) \<and>
            coverage e = round (100 * (of_nat (movieCount e) :: rat) / of_nat (totalMovies r)))"
proof -
  obtain mrs mwps where "analyze (length names) mrs mwps = Inr r"
    using bundle_report_origin [OF assms] by auto
  then obtain m where m: "allServices r = serviceRanking (length names) m"
      and tot: "totalMovies r = length names"
    using analyze_Inr by blast
  have "coverage e = round (100 * (of_nat (movieCount e) :: rat) / of_nat (length names))"
       "movieCount e = length (movies e)"
    if "e \<in> set (allServices r)" for e
    using serviceRanking_entry [of e "length names" m] that
    by (simp_all add: m Math_round_def round_def mult.commute)
  with tot show ?thesis by simp
qed

theorem C7_coverage_percent_witness:
  "\<exists>r. fst (bundle_route (Some [''M1'', ''M2'', ''M3'', ''M4'']) 0
            (\<lambda>i. (sample_match ([''M1'', ''M2'', ''M3'', ''M4''] ! i), 1)) 2
            (\<lambda>i. (sample_availability ([[''A''], [''A'', ''B''], [''A''], [''B'']] ! i), 3))
            (initial_state 0)) = Response 200 (Report r) \<and>
       totalMovies r = 4 \<and>
       map service (allServices r) = [''A'', ''B''] \<and>
       map movieCount (allServices r) = [3, 2] \<and>
       map coverage (allServices r) = [75, 50] \<and>
       notOnAnySubscription r = [] \<and>
       (\<forall>e \<in> set (allServices r).
          coverage e = round (100 * (of_nat (movieCount e) :: rat) / of_nat (totalMovies r)))"
proof -
  let ?r = "\<lparr>totalMovies = 4, foundMovies = 4, notFoundMovies = [],
        bestService = Some \<lparr>service = ''A'', movieCount = 3, movies = [''M1'', ''M2'', ''M3''], coverage = 75\<rparr>,
        allServices = [\<lparr>service = ''A'', movieCount = 3, movies = [''M1'', ''M2'', ''M3''], coverage = 75\<rparr>,
                       \<lparr>service = ''B'', movieCount = 2, movies = [''M2'', ''M4''], coverage = 50\<rparr>],
        notOnAnySubscription = [],
        movieDetails =
          [\<lparr>searchQuery = ''M1'', detail_title = Some ''M1'', detail_year = Some ''1999'',
            found = True, subscriptionServices = [''A'']\<rparr>,
           \<lparr>searchQuery = ''M2'', detail_title = Some ''M2'', detail_year = Some ''1999'',
            found = True, subscriptionServices = [''A'', ''B'']\<rparr>,
           \<lparr>searchQuery = ''M3'', detail_title = Some ''M3'', detail_year = Some ''1999'',
            found = True, subscriptionServices = [''A'']\<rparr>,
           \<lparr>searchQuery = ''M4'', detail_title = Some ''M4'', detail_year = Some ''1999'',
            found = True, subscriptionServices = [''B'']\<rparr>]\<rparr>"
  have run: "fst (bundle_route (Some [''M1'', ''M2'', ''M3'', ''M4'']) 0
            (\<lambda>i. (sample_match ([''M1'', ''M2'', ''M3'', ''M4''] ! i), 1)) 2
            (\<lambda>i. (sample_availability ([[''A''], [''A'', ''B''], [''A''], [''B'']] ! i), 3))
            (initial_state 0)) = Response 200 (Report ?r)"
    by code_simp
  show ?thesis
    using C7_coverage_percent [OF run] run
    by (intro exI [of _ ?r]) simp
qed

subsection \<open>The order of the service ranking\<close>

lemma first_seen_snoc:
  "first_seen (xs @ [x]) = (if x \<in> set xs then first_seen xs else first_seen xs @ [x])"
  by (simp add: first_seen_def)

lemma set_first_seen [simp]: "set (first_seen xs) = set xs"
  by (simp add: first_seen_def)

lemma distinct_first_seen [simp]: "distinct (first_seen xs)"
  by (simp add: first_seen_def)

lemma keys_update_present:
  "k \<in> fst ` set al \<Longrightarrow> map fst (AList.update k v al) = map fst al"
  by (simp add: update_keys)

lemma keys_add_provider:
  assumes keys: "map fst m = first_seen xs"
      and run: "add_provider t p m = Inr m'"
  shows "map fst m' = first_seen (xs @ (case serviceName p of None \<Rightarrow> [] | Some s \<Rightarrow> [s]))"
proof (cases "serviceName p")
  case None
  with run keys show ?thesis by (simp add: add_provider_def)
next
  case (Some s)
  let ?m1 = "if map_of m s = None then m @ [(s, [])] else m"
  have in_m1: "s \<in> fst ` set ?m1"
    by (auto simp add: map_of_eq_None_iff)
  have set_keys: "fst ` set m = set xs"
    using keys by (metis set_first_seen set_map)
  have keys_m1: "map fst ?m1 = first_seen (xs @ [s])"
    using keys set_keys by (auto simp add: first_seen_snoc map_of_eq_None_iff)
  from run Some have "m' = ?m1 \<or> (\<exists>v. m' = AList.update s v ?m1)"
    by (auto simp add: add_provider_def Let_def split: if_splits option.splits)
  then have "map fst m' = map fst ?m1"
    using keys_update_present [OF in_m1] by auto
  with keys_m1 Some show ?thesis by simp
qed

lemma keys_add_providers:
  assumes "map fst m = first_seen xs"
      and "add_providers t ps m = Inr m'"
  shows "map fst m' = first_seen (xs @ List.map_filter serviceName ps)"
  using assms
proof (induction ps arbitrary: m xs)
  case Nil
  then show ?case by (simp add: List.map_filter_simps)
next
  case (Cons p ps)
  from Cons.prems(2) obtain m1 where step: "add_provider t p m = Inr m1"
      and rest: "add_providers t ps m1 = Inr m'"
    by (auto split: sum.splits)
  have "map fst m1 = first_seen (xs @ (case serviceName p of None \<Rightarrow> [] | Some s \<Rightarrow> [s]))"
    by (rule keys_add_provider [OF Cons.prems(1) step])
  from Cons.IH [OF this rest] show ?case
    by (cases "serviceName p") (simp_all add: List.map_filter_simps)
qed

lemma keys_build_serviceMovieMap:
  assumes "map fst m = first_seen xs"
      and "build_serviceMovieMap mwps m = Inr m'"
  shows "map fst m' = first_seen (xs @ encountered mwps)"
  using assms
proof (induction mwps arbitrary: m xs)
  case Nil
  then show ?case by (simp add: encountered_def)
next
  case (Cons mv mwps)
  show ?case
  proof (cases "flatrate_of mv")
    case None
    with Cons.prems(2) have "build_serviceMovieMap mwps m = Inr m'" by simp
    from Cons.IH [OF Cons.prems(1) this] None show ?thesis
      by (simp add: encountered_def)
  next
    case (Some tf)
    obtain t fl where tf: "tf = (t, fl)" by (cases tf)
    from Cons.prems(2) Some tf obtain m1 where step: "add_providers t fl m = Inr m1"
        and rest: "build_serviceMovieMap mwps m1 = Inr m'"
      by (auto split: sum.splits)
    have "map fst m1 = first_seen (xs @ List.map_filter serviceName fl)"
      by (rule keys_add_providers [OF Cons.prems(1) step])
    from Cons.IH [OF this rest] Some tf show ?thesis
      by (simp add: encountered_def)
  qed
qed

lemma map_filter_distinct_image:
  assumes "distinct (map g xs)"
  shows "map g (filter P xs) = filter (\<lambda>y. y \<in> g ` {x \<in> set xs. P x}) (map g xs)"
  using assms
proof (induction xs)
  case Nil
  then show ?case by simp
next
  case (Cons x xs)
  then have notin: "g x \<notin> g ` set xs" and d: "distinct (map g xs)" by simp_all
  have fresh: "\<forall>x' \<in> set xs. g x' \<noteq> g x"
    using notin by (metis image_eqI)
  have same: "filter (\<lambda>y. y \<in> g ` {x' \<in> set (x # xs). P x'}) (map g xs) =
              filter (\<lambda>y. y \<in> g ` {x' \<in> set xs. P x'}) (map g xs)"
  proof (rule filter_cong [OF refl])
    fix y
    assume "y \<in> set (map g xs)"
    with fresh have "y \<noteq> g x" by auto
    then show "(y \<in> g ` {x' \<in> set (x # xs). P x'}) = (y \<in> g ` {x' \<in> set xs. P x'})"
      by auto
  qed
  have head: "g x \<in> g ` {x' \<in> set (x # xs). P x'} \<longleftrightarrow> P x"
    using fresh by force
  show ?case
    using Cons.IH [OF d] same head by simp
qed

lemma service_ranking_entry [simp]: "service (ranking_entry n e) = fst e"
  by (cases e) (simp add: ranking_entry_def)

lemma movieCount_ranking_entry [simp]: "movieCount (ranking_entry n e) = length (snd e)"
  by (cases e) (simp add: ranking_entry_def)

lemma map_fst_insort_key:
  "map fst (insort_key (\<lambda>(k, v). g k) x xs) = insort_key g (fst x) (map fst xs)"
  by (induction xs) (auto simp add: case_prod_beta)

lemma map_fst_sort_key:
  "map fst (sort_key (\<lambda>(k, v). g k) xs) = sort_key g (map fst xs)"
  by (induction xs) (simp_all add: map_fst_insort_key)

lemma keys_Object_entries: "map fst (Object_entries m) = property_order (map fst m)"
proof -
  have "map fst (filter (\<lambda>(k, v). P k) m) = filter P (map fst m)" for P :: "string \<Rightarrow> bool"
    by (induction m) auto
  then show ?thesis
    by (simp add: Object_entries_def property_order_def map_fst_sort_key)
qed

lemma mset_property_order [simp]: "mset (property_order ks) = mset ks"
  by (simp add: property_order_def)

lemma distinct_property_order: "distinct ks \<Longrightarrow> distinct (property_order ks)"
  by (auto simp add: property_order_def)

lemma property_order_plain:
  assumes "\<forall>k \<in> set ks. \<not> isArrayIndex k"
  shows "property_order ks = ks"
proof -
  have "filter isArrayIndex ks = []"
    using assms by (auto simp add: filter_empty_conv)
  moreover have "filter (\<lambda>k. \<not> isArrayIndex k) ks = ks"
    using assms by (auto simp add: filter_id_conv)
  ultimately show ?thesis by (simp add: property_order_def)
qed

lemma plain_keys_property_order:
  "filter (\<lambda>s. \<not> isArrayIndex s) (filter Q (property_order ks)) =
   filter (\<lambda>s. \<not> isArrayIndex s \<and> Q s) ks"
proof -
  have "filter (\<lambda>s. \<not> isArrayIndex s) (filter Q (sort_key indexValue (filter isArrayIndex ks))) = []"
    by (auto simp add: filter_empty_conv)
  moreover have "filter (\<lambda>s. \<not> isArrayIndex s) (filter Q (filter (\<lambda>k. \<not> isArrayIndex k) ks)) =
                 filter (\<lambda>s. \<not> isArrayIndex s \<and> Q s) ks"
    by (induction ks) auto
  ultimately show ?thesis
    by (simp add: property_order_def)
qed

text \<open>
  Claim C6, as amended. In every report of the analysis, \<open>allServices\<close> is sorted by
  descending \<open>movieCount\<close> and lists exactly the services met in the scan, each once.
  Among the services with one count \<open>k\<close>, those whose key is not an array index stand in
  the order of their first encounter; the whole group is the enumeration order of a plain
  object (array indices first, by ascending value, then the other keys in the order of
  first encounter) restricted to it. When no service key is an array index, every group
  is in the order of first encounter. The report is a function of the input, so the order
  is the same on every run.
\<close>

theorem C6_ranking_order:
  assumes "analyze n mrs mwps = Inr r"
  shows "sorted_wrt (\<lambda>a b. movieCount a \<ge> movieCount b) (allServices r) \<and>
         mset (map service (allServices r)) = mset (first_seen (encountered mwps)) \<and>
         (\<forall>k. filter (\<lambda>s. \<not> isArrayIndex s)
                 (map service (filter (\<lambda>e. movieCount e = k) (allServices r))) =
              filter (\<lambda>s. \<not> isArrayIndex s \<and>
                           s \<in> service ` {e \<in> set (allServices r). movieCount e = k})
                (first_seen (encountered mwps))) \<and>
         (\<forall>k. map service (filter (\<lambda>e. movieCount e = k) (allServices r)) =
              filter (\<lambda>s. s \<in> service ` {e \<in> set (allServices r). movieCount e = k})
                (property_order (first_seen (encountered mwps)))) \<and>
         ((\<forall>s \<in> set (encountered mwps). \<not> isArrayIndex s) \<longrightarrow>
          (\<forall>k. map service (filter (\<lambda>e. movieCount e = k) (allServices r)) =
               filter (\<lambda>s. s \<in> service ` {e \<in> set (allServices r). movieCount e = k})
                 (first_seen (encountered mwps))))"
proof -
  obtain m where build: "build_serviceMovieMap mwps [] = Inr m"
      and ranking: "allServices r = serviceRanking n m"
    using analyze_Inr [OF assms(1)] by blast
  have keys: "map fst m = first_seen (encountered mwps)"
    using keys_build_serviceMovieMap [of "[]" "[]" mwps m] build by (simp add: first_seen_def)
  define es where "es = map (ranking_entry n) (Object_entries m)"
  define f where "f = (\<lambda>e::service_entry. - int (movieCount e))"
  define seen where "seen = first_seen (encountered mwps)"
  have sorted_es: "allServices r = sort_key f es"
    by (simp add: ranking serviceRanking_def es_def f_def)
  have services: "map service es = property_order seen"
    using keys keys_Object_entries [of m] by (simp add: es_def comp_def seen_def)
  have "sorted (map f (allServices r))"
    by (simp add: sorted_es)
  then have desc: "sorted_wrt (\<lambda>a b. movieCount a \<ge> movieCount b) (allServices r)"
    by (simp add: sorted_map f_def)
  have "mset (allServices r) = mset es"
    by (simp add: sorted_es)
  then have "mset (map service (allServices r)) = mset (map service es)"
    by (metis mset_map)
  then have perm: "mset (map service (allServices r)) = mset seen"
    by (simp add: services)
  have ties: "map service (filter (\<lambda>e. movieCount e = k) (allServices r)) =
              filter (\<lambda>s. s \<in> service ` {e \<in> set (allServices r). movieCount e = k})
                (property_order seen)" for k
  proof -
    have eq: "(\<lambda>e::service_entry. movieCount e = k) = (\<lambda>e. f e = - int k)"
      by (auto simp add: f_def)
    have "filter (\<lambda>e. movieCount e = k) (allServices r) = filter (\<lambda>e. movieCount e = k) es"
      unfolding sorted_es eq by (rule sort_key_stable)
    moreover have "distinct (map service es)"
      unfolding services seen_def by (rule distinct_property_order) simp
    moreover have "set (allServices r) = set es"
      by (simp add: sorted_es)
    ultimately show ?thesis
      using map_filter_distinct_image [of service es "\<lambda>e. movieCount e = k"]
      by (simp add: services)
  qed
  have plain_ties: "filter (\<lambda>s. \<not> isArrayIndex s)
                 (map service (filter (\<lambda>e. movieCount e = k) (allServices r))) =
              filter (\<lambda>s. \<not> isArrayIndex s \<and>
                           s \<in> service ` {e \<in> set (allServices r). movieCount e = k}) seen" for k
    unfolding ties by (rule plain_keys_property_order)
  have no_index: "map service (filter (\<lambda>e. movieCount e = k) (allServices r)) =
               filter (\<lambda>s. s \<in> service ` {e \<in> set (allServices r). movieCount e = k}) seen"
    if "\<forall>s \<in> set (encountered mwps). \<not> isArrayIndex s" for k
  proof -
    have "property_order seen = seen"
      using that by (intro property_order_plain) (simp add: seen_def)
    with ties [of k] show ?thesis by simp
  qed
  from desc perm plain_ties ties no_index show ?thesis
    unfolding seen_def by blast
qed

theorem C6_ranking_order_witness:
  "(\<exists>r. analyze 2 [Found ''a'' (sample_movie ''M1''), Found ''b'' (sample_movie ''M2'')]
           [FoundP ''a'' (sample_movie ''M1'')
              (Providers (emptyProviders\<lparr>flatrate := map subscription [''Netflix'', ''7'', ''Prime'']\<rparr>)),
            FoundP ''b'' (sample_movie ''M2'')
              (Providers (emptyProviders\<lparr>flatrate := map subscription [''Hulu'', ''Prime'']\<rparr>))] = Inr r \<and>
       first_seen (encountered
           [FoundP ''a'' (sample_movie ''M1'')
              (Providers (emptyProviders\<lparr>flatrate := map subscription [''Netflix'', ''7'', ''Prime'']\<rparr>)),
            FoundP ''b'' (sample_movie ''M2'')
              (Providers (emptyProviders\<lparr>flatrate := map subscription [''Hulu'', ''Prime'']\<rparr>))]) =
         [''Netflix'', ''7'', ''Prime'', ''Hulu''] \<and>
       map service (allServices r) = [''Prime'', ''7'', ''Netflix'', ''Hulu''] \<and>
       map movieCount (allServices r) = [2, 1, 1, 1] \<and>
       sorted_wrt (\<lambda>a b. movieCount a \<ge> movieCount b) (allServices r) \<and>
       filter (\<lambda>s. \<not> isArrayIndex s)
         (map service (filter (\<lambda>e. movieCount e = 1) (allServices r))) = [''Netflix'', ''Hulu'']) \<and>
   (\<exists>r. analyze 2 [Found ''a'' (sample_movie ''M1''), Found ''b'' (sample_movie ''M2'')]
           [FoundP ''a'' (sample_movie ''M1'')
              (Providers (emptyProviders\<lparr>flatrate := map subscription [''Netflix'', ''Prime'']\<rparr>)),
            FoundP ''b'' (sample_movie ''M2'')
              (Providers (emptyProviders\<lparr>flatrate := map subscription [''Prime'', ''Hulu'']\<rparr>))] = Inr r \<and>
       (\<forall>s \<in> set (encountered
           [FoundP ''a'' (sample_movie ''M1'')
              (Providers (emptyProviders\<lparr>flatrate := map subscription [''Netflix'', ''Prime'']\<rparr>)),
            FoundP ''b'' (sample_movie ''M2'')
              (Providers (emptyProviders\<lparr>flatrate := map subscription [''Prime'', ''Hulu'']\<rparr>))]).
          \<not> isArrayIndex s) \<and>
       first_seen (encountered
           [FoundP ''a'' (sample_movie ''M1'')
              (Providers (emptyProviders\<lparr>flatrate := map subscription [''Netflix'', ''Prime'']\<rparr>)),
            FoundP ''b'' (sample_movie ''M2'')
              (Providers (emptyProviders\<lparr>flatrate := map subscription [''Prime'', ''Hulu'']\<rparr>))]) =
         [''Netflix'', ''Prime'', ''Hulu''] \<and>
       map service (allServices r) = [''Prime'', ''Netflix'', ''Hulu''] \<and>
       map service (filter (\<lambda>e. movieCount e = 1) (allServices r)) =
         filter (\<lambda>s. s \<in> service ` {e \<in> set (allServices r). movieCount e = 1})
           (first_seen (encountered
             [FoundP ''a'' (sample_movie ''M1'')
                (Providers (emptyProviders\<lparr>flatrate := map subscription [''Netflix'', ''Prime'']\<rparr>)),
              FoundP ''b'' (sample_movie ''M2'')
                (Providers (emptyProviders\<lparr>flatrate := map subscription [''Prime'', ''Hulu'']\<rparr>))])))"
proof -
  let ?mrs = "[Found ''a'' (sample_movie ''M1''), Found ''b'' (sample_movie ''M2'')]"
  let ?mixed = "[FoundP ''a'' (sample_movie ''M1'')
              (Providers (emptyProviders\<lparr>flatrate := map subscription [''Netflix'', ''7'', ''Prime'']\<rparr>)),
            FoundP ''b'' (sample_movie ''M2'')
              (Providers (emptyProviders\<lparr>flatrate := map subscription [''Hulu'', ''Prime'']\<rparr>))]"
  let ?r1 = "\<lparr>totalMovies = 2, foundMovies = 2, notFoundMovies = [],
        bestService = Some \<lparr>service = ''Prime'', movieCount = 2, movies = [''M1'', ''M2''], coverage = 100\<rparr>,
        allServices = [\<lparr>service = ''Prime'', movieCount = 2, movies = [''M1'', ''M2''], coverage = 100\<rparr>,
                       \<lparr>service = ''7'', movieCount = 1, movies = [''M1''], coverage = 50\<rparr>,
                       \<lparr>service = ''Netflix'', movieCount = 1, movies = [''M1''], coverage = 50\<rparr>,
                       \<lparr>service = ''Hulu'', movieCount = 1, movies = [''M2''], coverage = 50\<rparr>],
        notOnAnySubscription = [],
        movieDetails =
          [\<lparr>searchQuery = ''a'', detail_title = Some ''M1'', detail_year = Some ''1999'',
            found = True, subscriptionServices = [''Netflix'', ''7'', ''Prime'']\<rparr>,
           \<lparr>searchQuery = ''b'', detail_title = Some ''M2'', detail_year = Some ''1999'',
            found = True, subscriptionServices = [''Hulu'', ''Prime'']\<rparr>]\<rparr>"
  let ?plain = "[FoundP ''a'' (sample_movie ''M1'')
              (Providers (emptyProviders\<lparr>flatrate := map subscription [''Netflix'', ''Prime'']\<rparr>)),
            FoundP ''b'' (sample_movie ''M2'')
              (Providers (emptyProviders\<lparr>flatrate := map subscription [''Prime'', ''Hulu'']\<rparr>))]"
  let ?r2 = "\<lparr>totalMovies = 2, foundMovies = 2, notFoundMovies = [],
        bestService = Some \<lparr>service = ''Prime'', movieCount = 2, movies = [''M1'', ''M2''], coverage = 100\<rparr>,
        allServices = [\<lparr>service = ''Prime'', movieCount = 2, movies = [''M1'', ''M2''], coverage = 100\<rparr>,
                       \<lparr>service = ''Netflix'', movieCount = 1, movies = [''M1''], coverage = 50\<rparr>,
                       \<lparr>service = ''Hulu'', movieCount = 1, movies = [''M2''], coverage = 50\<rparr>],
        notOnAnySubscription = [],
        movieDetails =
          [\<lparr>searchQuery = ''a'', detail_title = Some ''M1'', detail_year = Some ''1999'',
            found = True, subscriptionServices = [''Netflix'', ''Prime'']\<rparr>,
           \<lparr>searchQuery = ''b'', detail_title = Some ''M2'', detail_year = Some ''1999'',
            found = True, subscriptionServices = [''Prime'', ''Hulu'']\<rparr>]\<rparr>"
  have run1: "analyze 2 ?mrs ?mixed = Inr ?r1"
    by code_simp
  have seen1: "first_seen (encountered ?mixed) = [''Netflix'', ''7'', ''Prime'', ''Hulu'']"
    by code_simp
  have names1: "map service (allServices ?r1) = [''Prime'', ''7'', ''Netflix'', ''Hulu'']"
    and counts1: "map movieCount (allServices ?r1) = [2, 1, 1, 1]"
    by simp_all
  have sorted1: "sorted_wrt (\<lambda>a b. movieCount a \<ge> movieCount b) (allServices ?r1)"
    using C6_ranking_order [OF run1] by blast
  have plain1: "filter (\<lambda>s. \<not> isArrayIndex s)
         (map service (filter (\<lambda>e. movieCount e = 1) (allServices ?r1))) = [''Netflix'', ''Hulu'']"
    by code_simp
  have first: "\<exists>r. analyze 2 ?mrs ?mixed = Inr r \<and>
       first_seen (encountered ?mixed) = [''Netflix'', ''7'', ''Prime'', ''Hulu''] \<and>
       map service (allServices r) = [''Prime'', ''7'', ''Netflix'', ''Hulu''] \<and>
       map movieCount (allServices r) = [2, 1, 1, 1] \<and>
       sorted_wrt (\<lambda>a b. movieCount a \<ge> movieCount b) (allServices r) \<and>
       filter (\<lambda>s. \<not> isArrayIndex s)
         (map service (filter (\<lambda>e. movieCount e = 1) (allServices r))) = [''Netflix'', ''Hulu'']"
    by (intro exI [of _ ?r1] conjI run1 seen1 names1 counts1 sorted1 plain1)
  have run2: "analyze 2 ?mrs ?plain = Inr ?r2"
    by code_simp
  have enc2: "encountered ?plain = [''Netflix'', ''Prime'', ''Prime'', ''Hulu'']"
    by code_simp
  have no_index2: "\<forall>s \<in> set (encountered ?plain). \<not> isArrayIndex s"
    unfolding enc2 by code_simp
  have seen2: "first_seen (encountered ?plain) = [''Netflix'', ''Prime'', ''Hulu'']"
    unfolding enc2 by code_simp
  have names2: "map service (allServices ?r2) = [''Prime'', ''Netflix'', ''Hulu'']"
    by simp
  have ties2: "map service (filter (\<lambda>e. movieCount e = 1) (allServices ?r2)) =
         filter (\<lambda>s. s \<in> service ` {e \<in> set (allServices ?r2). movieCount e = 1})
           (first_seen (encountered ?plain))"
    using C6_ranking_order [OF run2] no_index2 by blast
  have second: "\<exists>r. analyze 2 ?mrs ?plain = Inr r \<and>
       (\<forall>s \<in> set (encountered ?plain). \<not> isArrayIndex s) \<and>
       first_seen (encountered ?plain) = [''Netflix'', ''Prime'', ''Hulu''] \<and>
       map service (allServices r) = [''Prime'', ''Netflix'', ''Hulu''] \<and>
       map service (filter (\<lambda>e. movieCount e = 1) (allServices r)) =
         filter (\<lambda>s. s \<in> service ` {e \<in> set (allServices r). movieCount e = 1})
           (first_seen (encountered ?plain))"
    by (intro exI [of _ ?r2] conjI run2 no_index2 seen2 names2 ties2)
  from first second show ?thesis ..
qed

text \<open>
  Claim C6 as stated fails when a service key is an array index. A movie is offered by
  \<^verbatim>\<open>Netflix\<close> and then by a service named \<^verbatim>\<open>7\<close>; both cover one title, and the report
  lists \<^verbatim>\<open>7\<close> before \<^verbatim>\<open>Netflix\<close>, because \<^verbatim>\<open>Object.entries\<close> enumerates integer keys
  first.
\<close>

theorem C6_integer_key_counterexample:
  "fst (bundle_route (Some [''Heat'']) 0 (\<lambda>i. (sample_match ''Heat'', 1)) 2
          (\<lambda>i. (sample_availability [''Netflix'', ''7''], 3)) (initial_state 0)) =
     Response 200 (Report
       \<lparr>totalMovies = 1, foundMovies = 1, notFoundMovies = [],
        bestService = Some \<lparr>service = ''7'', movieCount = 1, movies = [''Heat''], coverage = 100\<rparr>,
        allServices = [\<lparr>service = ''7'', movieCount = 1, movies = [''Heat''], coverage = 100\<rparr>,
                       \<lparr>service = ''Netflix'', movieCount = 1, movies = [''Heat''], coverage = 100\<rparr>],
        notOnAnySubscription = [],
        movieDetails =
          [\<lparr>searchQuery = ''Heat'', detail_title = Some ''Heat'', detail_year = Some ''1999'',
            found = True, subscriptionServices = [''Netflix'', ''7'']\<rparr>]\<rparr>)"
  by code_simp

subsection \<open>Provider lookups of a batch\<close>

lemma getFromCache_after_lookup:
  "fst (getFromCache now k (snd (getFromCache now k' c))) = fst (getFromCache now k c)"
proof (cases "map_of c k'")
  case None
  then show ?thesis by (simp add: getFromCache_def)
next
  case (Some e)
  show ?thesis
  proof (cases "now - timestamp e > CACHE_TTL")
    case False
    with Some show ?thesis by (simp add: getFromCache_def)
  next
    case True
    with Some have evict: "snd (getFromCache now k' c) = AList.delete k' c"
      by (simp add: getFromCache_def)
    show ?thesis
    proof (cases "k = k'")
      case True
      with Some \<open>now - timestamp e > CACHE_TTL\<close> show ?thesis
        by (simp add: evict) (simp add: getFromCache_def delete_conv')
    next
      case False
      then show ?thesis
        by (simp add: evict) (simp add: getFromCache_def delete_conv' split: option.splits)
    qed
  qed
qed

lemma cache_getProviders_begin:
  "cache (snd (getProviders_begin now i st)) = snd (getFromCache now (providers_key i) (cache st))"
  by (simp add: getProviders_begin_def Let_def split: prod.splits option.splits)

lemma lookup_outcome_after_begin:
  "lookup_outcome now (cache (snd (getProviders_begin now i st))) reply m =
   lookup_outcome now (cache st) reply m"
  by (cases m) (simp_all add: cache_getProviders_begin getFromCache_after_lookup)

lemma fst_getProviders_begin:
  "fst (getProviders_begin now i st) =
     (case fst (getFromCache now (providers_key i) (cache st)) of Some d \<Rightarrow> Settled d | None \<Rightarrow> InFlight)"
  by (simp add: getProviders_begin_def Let_def split: prod.splits option.splits)

lemma lookup_one:
  "(case (case fst (getProviders_begin now (id' mv) st) of
            Settled d \<Rightarrow> Inr d
          | InFlight \<Rightarrow> fst (getProviders_resume (id' mv) reply later st')) of
      Inl e \<Rightarrow> Inl e
    | Inr d \<Rightarrow> Inr (FoundP q mv d)) = lookup_outcome now (cache st) reply (Found q mv)"
  by (simp add: fst_getProviders_begin getProviders_resume_def Let_def split: option.splits axios.splits)

lemma length_begin_lookups [simp]: "length (fst (begin_lookups now ms st)) = length ms"
proof (induction ms arbitrary: st)
  case Nil
  then show ?case by simp
next
  case (Cons m ms)
  then show ?case by (cases m) (simp_all add: split_beta)
qed

lemma fst_resume_lookup_begin:
  "fst (resume_lookup (Found q mv, fst (getProviders_begin now (id' mv) st)) reply st') =
   lookup_outcome now (cache st) (fst reply) (Found q mv)"
  using lookup_one [where now = now and mv = mv and st = st and reply = "fst reply"
      and later = "snd reply" and st' = st' and q = q]
  by (cases "fst (getProviders_begin now (id' mv) st)") (simp_all add: split_beta)

lemma outcome_begin_lookups:
  assumes "i < length ms"
  shows "fst (resume_lookup (fst (begin_lookups now ms st) ! i) reply st') =
         lookup_outcome now (cache st) (fst reply) (ms ! i)"
  using assms
proof (induction ms arbitrary: i st)
  case Nil
  then show ?case by simp
next
  case (Cons m ms)
  show ?case
  proof (cases m)
    case (NotFound q)
    show ?thesis
    proof (cases i)
      case 0
      with NotFound show ?thesis by (simp add: split_beta)
    next
      case (Suc i')
      with Cons.prems have "i' < length ms" by simp
      from Cons.IH [OF this, of st] NotFound Suc show ?thesis
        by (simp add: split_beta)
    qed
  next
    case (Found q mv)
    let ?st1 = "snd (getProviders_begin now (id' mv) st)"
    show ?thesis
    proof (cases i)
      case 0
      with Found show ?thesis
        by (simp add: split_beta fst_resume_lookup_begin del: resume_lookup.simps lookup_outcome.simps)
    next
      case (Suc i')
      with Cons.prems have "i' < length ms" by simp
      from Cons.IH [OF this, of ?st1] Found Suc show ?thesis
        by (simp add: split_beta lookup_outcome_after_begin del: resume_lookup.simps lookup_outcome.simps)
    qed
  qed
qed

lemma fst_resume_lookup_state:
  "fst (resume_lookup x reply st) = fst (resume_lookup x reply st')"
proof (cases x)
  case (Pair m p)
  show ?thesis
  proof (cases m)
    case (NotFound q)
    with Pair show ?thesis by simp
  next
    case (Found q mv)
    with Pair show ?thesis
      by (cases p) (simp_all add: split_beta getProviders_resume_def Let_def split: axios.splits)
  qed
qed

lemma fst_resume_lookups:
  "fst (resume_lookups up looking order st) =
   map (\<lambda>i. (i, fst (resume_lookup (looking ! i) (up i) st0))) order"
proof (induction order arbitrary: st)
  case Nil
  then show ?case by simp
next
  case (Cons i order)
  show ?case
    using Cons.IH [of "snd (resume_lookup (looking ! i) (up i) st)"]
      fst_resume_lookup_state [of "looking ! i" "up i" st st0]
    by (simp add: split_beta)
qed

lemma set_arrival_order [simp]: "set (arrival_order up n) = {0..<n}"
  by (simp add: arrival_order_def)

lemma distinct_arrival_order [simp]: "distinct (arrival_order up n)"
  by (simp add: arrival_order_def)

lemma mset_arrival_order [simp]: "mset (arrival_order up n) = mset [0..<n]"
  by (simp add: arrival_order_def)

lemma fst_lookup_all:
  "fst (lookup_all now up ms st) =
   Promise_all (map (\<lambda>i. (i, lookup_outcome now (cache st) (fst (up i)) (ms ! i)))
                  (arrival_order up (length ms)))"
proof -
  let ?looking = "fst (begin_lookups now ms st)"
  let ?st1 = "snd (begin_lookups now ms st)"
  have "fst (resume_lookups up ?looking (arrival_order up (length ms)) ?st1) =
        map (\<lambda>i. (i, fst (resume_lookup (?looking ! i) (up i) ?st1))) (arrival_order up (length ms))"
    by (rule fst_resume_lookups)
  also have "\<dots> = map (\<lambda>i. (i, lookup_outcome now (cache st) (fst (up i)) (ms ! i)))
                        (arrival_order up (length ms))"
    by (rule map_cong [OF refl]) (simp add: outcome_begin_lookups)
  finally show ?thesis
    by (simp add: lookup_all_def split_beta)
qed

lemma first_rejection_None:
  "first_rejection (map (\<lambda>i. (i, f i)) order) = None \<longleftrightarrow> (\<forall>i \<in> set order. \<exists>x. f i = Inr x)"
proof (induction order)
  case Nil
  then show ?case by simp
next
  case (Cons i order)
  then show ?case by (cases "f i") simp_all
qed

lemma first_rejection_Some:
  assumes "first_rejection (map (\<lambda>i. (i, f i)) order) = Some e"
  shows "\<exists>i \<in> set order. f i = Inl e"
  using assms
proof (induction order)
  case Nil
  then show ?case by simp
next
  case (Cons i order)
  then show ?case by (cases "f i") auto
qed

lemma first_rejection_split:
  assumes "\<forall>j \<in> set pre. \<exists>x. f j = Inr x" and "f i = Inl e"
  shows "first_rejection (map (\<lambda>i. (i, f i)) (pre @ i # post)) = Some e"
  using assms
proof (induction pre)
  case Nil
  then show ?case by simp
next
  case (Cons j pre)
  then obtain x where "f j = Inr x" by auto
  with Cons show ?case by simp
qed

lemma fulfilled_all:
  assumes "\<forall>i \<in> set order. \<exists>x. f i = Inr x"
  shows "fulfilled (map (\<lambda>i. (i, f i)) order) = map (\<lambda>i. (i, projr (f i))) order"
  using assms
proof (induction order)
  case Nil
  then show ?case by simp
next
  case (Cons i order)
  then obtain x where "f i = Inr x" by auto
  with Cons show ?case by simp
qed

lemma insort_key_positions:
  "insort_key fst (i, g i) (map (\<lambda>i. (i, g i)) ys) = map (\<lambda>i. (i, g i)) (insort i ys)"
  by (induction ys) simp_all

lemma sort_key_positions:
  "sort_key fst (map (\<lambda>i. (i, g i)) order) = map (\<lambda>i. (i, g i)) (sort order)"
  by (induction order) (simp_all add: insort_key_positions)

lemma in_input_order_positions:
  assumes "mset order = mset [0..<n]"
  shows "in_input_order (map (\<lambda>i. (i, g i)) order) = map g [0..<n]"
proof -
  have "sort order = [0..<n]"
    by (rule properties_for_sort) (simp_all add: assms)
  then show ?thesis
    by (simp add: in_input_order_def sort_key_positions comp_def)
qed

lemma Promise_all_fulfilled:
  assumes "\<forall>i<n. \<exists>x. f i = Inr x"
  shows "\<exists>xs. map Inr xs = map f [0..<n] \<and>
              Promise_all (map (\<lambda>i. (i, f i)) (arrival_order up n)) = Inr xs"
proof -
  let ?order = "arrival_order up n"
  have every: "\<forall>i \<in> set ?order. \<exists>x. f i = Inr x"
    using assms by simp
  have no_rejection: "first_rejection (map (\<lambda>i. (i, f i)) ?order) = None"
    using every by (simp only: first_rejection_None)
  have vals: "in_input_order (fulfilled (map (\<lambda>i. (i, f i)) ?order)) = map (\<lambda>i. projr (f i)) [0..<n]"
    by (simp only: fulfilled_all [OF every]) (rule in_input_order_positions, simp)
  have "map Inr (map (\<lambda>i. projr (f i)) [0..<n]) = map f [0..<n]"
    using assms by auto
  then show ?thesis
    using no_rejection vals by (simp add: Promise_all_def)
qed

lemma Promise_all_some_rejection:
  assumes "\<exists>i<n. \<exists>e. f i = Inl e"
  shows "\<exists>i<n. \<exists>e. f i = Inl e \<and> Promise_all (map (\<lambda>i. (i, f i)) (arrival_order up n)) = Inl e"
proof -
  let ?order = "arrival_order up n"
  from assms obtain i0 e0 where "i0 < n" "f i0 = Inl e0" by blast
  then have "i0 \<in> set ?order" "\<not> (\<exists>x. f i0 = Inr x)" by simp_all
  then have "first_rejection (map (\<lambda>i. (i, f i)) ?order) \<noteq> None"
    by (simp only: first_rejection_None) blast
  then obtain e where e: "first_rejection (map (\<lambda>i. (i, f i)) ?order) = Some e"
    by auto
  from first_rejection_Some [OF this] obtain i where "i < n" "f i = Inl e"
    by auto
  with e show ?thesis
    by (auto simp add: Promise_all_def)
qed

lemma arrival_order_earlier:
  assumes "arrival_order up n = pre @ i # post" and "j \<in> set pre"
  shows "snd (up j) \<le> snd (up i) \<and> j \<noteq> i \<and> j < n"
proof -
  have "sorted (map (\<lambda>i. snd (up i)) (arrival_order up n))"
    unfolding arrival_order_def by (rule sorted_sort_key)
  then have "snd (up j) \<le> snd (up i)"
    using assms by (auto simp add: sorted_append)
  moreover have "distinct (pre @ i # post)"
    using assms(1) distinct_arrival_order [of up n] by simp
  then have "j \<noteq> i" using assms(2) by auto
  moreover have "j \<in> set (arrival_order up n)"
    using assms by simp
  then have "j < n" by simp
  ultimately show ?thesis by simp
qed

lemma Promise_all_first_rejection:
  assumes "i < n" and "f i = Inl e"
      and "\<forall>j<n. j \<noteq> i \<and> (\<exists>e'. f j = Inl e') \<longrightarrow> snd (up i) < snd (up j)"
  shows "Promise_all (map (\<lambda>i. (i, f i)) (arrival_order up n)) = Inl e"
proof -
  have "i \<in> set (arrival_order up n)"
    using assms(1) by simp
  then obtain pre post where split: "arrival_order up n = pre @ i # post"
    by (meson split_list)
  have "\<exists>x. f j = Inr x" if "j \<in> set pre" for j
  proof (cases "f j")
    case (Inr x)
    then show ?thesis by simp
  next
    case (Inl e')
    from arrival_order_earlier [OF split that] have "snd (up j) \<le> snd (up i)" "j \<noteq> i" "j < n"
      by simp_all
    with assms(3) Inl have "snd (up i) < snd (up j)" by blast
    with \<open>snd (up j) \<le> snd (up i)\<close> show ?thesis by simp
  qed
  then have "first_rejection (map (\<lambda>i. (i, f i)) (pre @ i # post)) = Some e"
    using assms(2) by (intro first_rejection_split) auto
  then show ?thesis
    by (simp add: Promise_all_def split)
qed

lemma lookup_outcome_rejection:
  assumes "lookup_outcome now c reply m = Inl e"
  shows "\<exists>q mv s. m = Found q mv \<and> fst (getFromCache now (providers_key (id' mv)) c) = None \<and>
           reply = Rejected (Some s) \<and> (s = 429 \<or> s = 402) \<and>
           bundle_catch e =
             Response s (ErrorJson (if s = 429 then ''RapidAPI rate limit exceeded. Please try again later.''
                                    else ''RapidAPI monthly quota exceeded (1000 requests/month)'')
                           True (Some ''rapidapi''))"
proof (cases m)
  case (NotFound q)
  with assms show ?thesis by simp
next
  case (Found q mv)
  with assms show ?thesis
    by (auto simp add: bundle_catch_def split: option.splits axios.splits if_splits)
qed

lemma lookup_outcome_systemic:
  assumes "fst (getFromCache now (providers_key (id' mv)) c) = None" and "s = 429 \<or> s = 402"
  shows "\<exists>e. lookup_outcome now c (Rejected (Some s)) (Found q mv) = Inl e \<and>
           bundle_catch e =
             Response s (ErrorJson (if s = 429 then ''RapidAPI rate limit exceeded. Please try again later.''
                                    else ''RapidAPI monthly quota exceeded (1000 requests/month)'')
                           True (Some ''rapidapi''))"
  using assms by (auto simp add: bundle_catch_def)

text \<open>
  Claim C5. Let \<open>mrs\<close> be the movies as step 1 resolved them and \<open>st2\<close> the state it
  left. A provider lookup of the batch fails systemically when its movie was found, no
  fresh entry is cached for it and the upstream rejects its request with status 429 or
  402. (1) If the reply of such a lookup arrives before the reply of every other lookup
  that fails systemically, the handler answers with the status of that lookup and the
  rate-limit error object. (2) If there is any such lookup, the handler answers with the
  status of one of them, whatever the order of arrival. (3) If there is none, step 2
  resolves: the list of movies with providers is, entry by entry, \<open>lookup_outcome\<close> of the
  movie and of the reply to its own request, so that no reply reaches another movie's
  entry, and the handler goes on to the analysis. (4) In that list the entry of a movie
  whose request was rejected with any other status, or with none, holds the empty provider
  object.
\<close>

theorem C5_availability_failures:
  assumes valid: "names \<noteq> []" "length names \<le> 10"
      and step1: "resolve_all now1 up1 names st = (mrs, st2)"
  shows
   "(\<forall>i q mv s. i < length mrs \<and> mrs ! i = Found q mv \<and>
        fst (getFromCache now2 (providers_key (id' mv)) (cache st2)) = None \<and>
        fst (up2 i) = Rejected (Some s) \<and> (s = 429 \<or> s = 402) \<and>
        (\<forall>j q' mv' s'. j < length mrs \<and> j \<noteq> i \<and> mrs ! j = Found q' mv' \<and>
           fst (getFromCache now2 (providers_key (id' mv')) (cache st2)) = None \<and>
           fst (up2 j) = Rejected (Some s') \<and> (s' = 429 \<or> s' = 402) \<longrightarrow>
           snd (up2 i) < snd (up2 j)) \<longrightarrow>
        fst (bundle_route (Some names) now1 up1 now2 up2 st) =
          Response s (ErrorJson (if s = 429 then ''RapidAPI rate limit exceeded. Please try again later.''
                                 else ''RapidAPI monthly quota exceeded (1000 requests/month)'')
                        True (Some ''rapidapi''))) \<and>
    ((\<exists>i q mv s. i < length mrs \<and> mrs ! i = Found q mv \<and>
        fst (getFromCache now2 (providers_key (id' mv)) (cache st2)) = None \<and>
        fst (up2 i) = Rejected (Some s) \<and> (s = 429 \<or> s = 402)) \<longrightarrow>
     (\<exists>i q mv s. i < length mrs \<and> mrs ! i = Found q mv \<and>
        fst (getFromCache now2 (providers_key (id' mv)) (cache st2)) = None \<and>
        fst (up2 i) = Rejected (Some s) \<and> (s = 429 \<or> s = 402) \<and>
        fst (bundle_route (Some names) now1 up1 now2 up2 st) =
          Response s (ErrorJson (if s = 429 then ''RapidAPI rate limit exceeded. Please try again later.''
                                 else ''RapidAPI monthly quota exceeded (1000 requests/month)'')
                        True (Some ''rapidapi'')))) \<and>
    ((\<forall>i q mv s. i < length mrs \<and> mrs ! i = Found q mv \<and>
        fst (getFromCache now2 (providers_key (id' mv)) (cache st2)) = None \<and>
        fst (up2 i) = Rejected (Some s) \<longrightarrow> s \<noteq> 429 \<and> s \<noteq> 402) \<longrightarrow>
     (\<exists>mwps. map Inr mwps =
               map (\<lambda>i. lookup_outcome now2 (cache st2) (fst (up2 i)) (mrs ! i)) [0..<length mrs] \<and>
        fst (bundle_route (Some names) now1 up1 now2 up2 st) =
          (case analyze (length names) mrs mwps of
             Inl e \<Rightarrow> bundle_catch e
           | Inr report \<Rightarrow> Response 200 (Report report)))) \<and>
    (\<forall>q mv s c. fst (getFromCache now2 (providers_key (id' mv)) c) = None \<and>
        s \<noteq> Some 429 \<and> s \<noteq> Some 402 \<longrightarrow>
        lookup_outcome now2 c (Rejected s) (Found q mv) = Inr (FoundP q mv (Providers emptyProviders)))"
proof -
  define outcome where "outcome = (\<lambda>i. lookup_outcome now2 (cache st2) (fst (up2 i)) (mrs ! i))"
  define settled where "settled = map (\<lambda>i. (i, outcome i)) (arrival_order up2 (length mrs))"
  define msg where "msg = (\<lambda>s::nat. if s = 429 then ''RapidAPI rate limit exceeded. Please try again later.''
                                 else ''RapidAPI monthly quota exceeded (1000 requests/month)'')"
  have step2: "fst (lookup_all now2 up2 mrs st2) = Promise_all settled"
    by (simp add: fst_lookup_all settled_def outcome_def)
  have response: "fst (bundle_route (Some names) now1 up1 now2 up2 st) =
      (case Promise_all settled of
         Inl e \<Rightarrow> bundle_catch e
       | Inr mwps \<Rightarrow> (case analyze (length names) mrs mwps of
                        Inl e \<Rightarrow> bundle_catch e
                      | Inr report \<Rightarrow> Response 200 (Report report)))"
    unfolding bundle_route_valid [OF valid] Let_def step1 fst_conv snd_conv by (simp add: step2)
  have systemic: "\<exists>e. outcome i = Inl e \<and> bundle_catch e = Response s (ErrorJson (msg s) True (Some ''rapidapi''))"
    if "mrs ! i = Found q mv" "fst (getFromCache now2 (providers_key (id' mv)) (cache st2)) = None"
       "fst (up2 i) = Rejected (Some s)" "s = 429 \<or> s = 402" for i q mv s
    using lookup_outcome_systemic [OF that(2) that(4), of q] that(1) that(3)
    by (simp add: outcome_def msg_def)
  have rejected: "\<exists>q mv s. mrs ! j = Found q mv \<and>
        fst (getFromCache now2 (providers_key (id' mv)) (cache st2)) = None \<and>
        fst (up2 j) = Rejected (Some s) \<and> (s = 429 \<or> s = 402) \<and>
        bundle_catch e = Response s (ErrorJson (msg s) True (Some ''rapidapi''))"
    if "outcome j = Inl e" for j e
    using lookup_outcome_rejection [of now2 "cache st2" "fst (up2 j)" "mrs ! j" e] that
    unfolding outcome_def msg_def by simp
  have first: "fst (bundle_route (Some names) now1 up1 now2 up2 st) =
          Response s (ErrorJson (msg s) True (Some ''rapidapi''))"
    if p1: "i < length mrs" and p2: "mrs ! i = Found q mv"
       and p3: "fst (getFromCache now2 (providers_key (id' mv)) (cache st2)) = None"
       and p4: "fst (up2 i) = Rejected (Some s)" and p5: "s = 429 \<or> s = 402"
       and p6: "\<forall>j q' mv' s'. j < length mrs \<and> j \<noteq> i \<and> mrs ! j = Found q' mv' \<and>
           fst (getFromCache now2 (providers_key (id' mv')) (cache st2)) = None \<and>
           fst (up2 j) = Rejected (Some s') \<and> (s' = 429 \<or> s' = 402) \<longrightarrow>
           snd (up2 i) < snd (up2 j)" for i q mv s
  proof -
    obtain e where e: "outcome i = Inl e"
        and c: "bundle_catch e = Response s (ErrorJson (msg s) True (Some ''rapidapi''))"
      using systemic [OF p2 p3 p4 p5] by blast
    have later: "\<forall>j<length mrs. j \<noteq> i \<and> (\<exists>e'. outcome j = Inl e') \<longrightarrow> snd (up2 i) < snd (up2 j)"
    proof (intro allI impI)
      fix j
      assume j: "j < length mrs" and "j \<noteq> i \<and> (\<exists>e'. outcome j = Inl e')"
      then obtain e' where ne: "j \<noteq> i" and "outcome j = Inl e'" by blast
      from rejected [OF this(2)] obtain q' mv' s' where
          "mrs ! j = Found q' mv'"
          "fst (getFromCache now2 (providers_key (id' mv')) (cache st2)) = None"
          "fst (up2 j) = Rejected (Some s')" "s' = 429 \<or> s' = 402"
        by blast
      with p6 j ne show "snd (up2 i) < snd (up2 j)" by blast
    qed
    have "Promise_all settled = Inl e"
      unfolding settled_def by (rule Promise_all_first_rejection [OF p1 e later])
    with response c show ?thesis by simp
  qed
  have some: "\<exists>i q mv s. i < length mrs \<and> mrs ! i = Found q mv \<and>
        fst (getFromCache now2 (providers_key (id' mv)) (cache st2)) = None \<and>
        fst (up2 i) = Rejected (Some s) \<and> (s = 429 \<or> s = 402) \<and>
        fst (bundle_route (Some names) now1 up1 now2 up2 st) =
          Response s (ErrorJson (msg s) True (Some ''rapidapi''))"
    if ex: "\<exists>i q mv s. i < length mrs \<and> mrs ! i = Found q mv \<and>
        fst (getFromCache now2 (providers_key (id' mv)) (cache st2)) = None \<and>
        fst (up2 i) = Rejected (Some s) \<and> (s = 429 \<or> s = 402)"
  proof -
    from ex obtain i q mv s where i: "i < length mrs" "mrs ! i = Found q mv"
        "fst (getFromCache now2 (providers_key (id' mv)) (cache st2)) = None"
        "fst (up2 i) = Rejected (Some s)" "s = 429 \<or> s = 402"
      by blast
    from systemic [OF i(2) i(3) i(4) i(5)] obtain e where "outcome i = Inl e" by blast
    with i(1) have "\<exists>i<length mrs. \<exists>e. outcome i = Inl e" by blast
    from Promise_all_some_rejection [OF this, of up2] obtain j e' where j: "j < length mrs"
        "outcome j = Inl e'" "Promise_all settled = Inl e'"
      unfolding settled_def by blast
    from rejected [OF j(2)] obtain q' mv' s' where
        "mrs ! j = Found q' mv'"
        "fst (getFromCache now2 (providers_key (id' mv')) (cache st2)) = None"
        "fst (up2 j) = Rejected (Some s')" "s' = 429 \<or> s' = 402"
        "bundle_catch e' = Response s' (ErrorJson (msg s') True (Some ''rapidapi''))"
      by blast
    moreover have "fst (bundle_route (Some names) now1 up1 now2 up2 st) = bundle_catch e'"
      using response j(3) by simp
    ultimately show ?thesis
      using j(1) by auto
  qed
  have none: "\<exists>mwps. map Inr mwps = map outcome [0..<length mrs] \<and>
        fst (bundle_route (Some names) now1 up1 now2 up2 st) =
          (case analyze (length names) mrs mwps of
             Inl e \<Rightarrow> bundle_catch e
           | Inr report \<Rightarrow> Response 200 (Report report))"
    if tolerated: "\<forall>i q mv s. i < length mrs \<and> mrs ! i = Found q mv \<and>
        fst (getFromCache now2 (providers_key (id' mv)) (cache st2)) = None \<and>
        fst (up2 i) = Rejected (Some s) \<longrightarrow> s \<noteq> 429 \<and> s \<noteq> 402"
  proof -
    have "\<exists>x. outcome i = Inr x" if i: "i < length mrs" for i
    proof (cases "outcome i")
      case (Inr x)
      then show ?thesis by simp
    next
      case (Inl e)
      from rejected [OF this] obtain q mv s where
          f: "mrs ! i = Found q mv"
             "fst (getFromCache now2 (providers_key (id' mv)) (cache st2)) = None"
             "fst (up2 i) = Rejected (Some s)" and kind: "s = 429 \<or> s = 402"
        by blast
      with tolerated i have "s \<noteq> 429 \<and> s \<noteq> 402" by blast
      with kind show ?thesis by simp
    qed
    then have "\<forall>i<length mrs. \<exists>x. outcome i = Inr x" by blast
    from Promise_all_fulfilled [OF this, of up2] obtain mwps where
        "map Inr mwps = map outcome [0..<length mrs]" "Promise_all settled = Inr mwps"
      unfolding settled_def by blast
    with response show ?thesis by auto
  qed
  have degraded: "lookup_outcome now2 c (Rejected s) (Found q mv) = Inr (FoundP q mv (Providers emptyProviders))"
    if "fst (getFromCache now2 (providers_key (id' mv)) c) = None" "s \<noteq> Some 429" "s \<noteq> Some 402"
    for q mv s c
    using that by simp
  show ?thesis
    using first some none degraded
    unfolding outcome_def msg_def by blast
qed

theorem C5_availability_failures_witness:
  "[''M1'', ''M2''] \<noteq> [] \<and> length [''M1'', ''M2''] \<le> 10 \<and>
   resolve_all 0 (\<lambda>i. (sample_match ([''M1'', ''M2''] ! i), 1)) [''M1'', ''M2''] (initial_state 0) =
     ([Found ''M1'' (sample_movie ''M1''), Found ''M2'' (sample_movie ''M2'')],
      \<lparr>cache = [(''search:m1'', \<lparr>data = Movies [sample_movie ''M1''], timestamp = 1\<rparr>),
                (''search:m2'', \<lparr>data = Movies [sample_movie ''M2''], timestamp = 1\<rparr>)],
       apiUsage = \<lparr>rapidApi = \<lparr>remaining = None, limit = None\<rparr>,
                   omdb = \<lparr>dailyCount = 0, lastReset = 0\<rparr>\<rparr>,
       omdbRequests = [''M1'', ''M2''], rapidRequests = []\<rparr>) \<and>
   fst (bundle_route (Some [''M1'', ''M2'']) 0 (\<lambda>i. (sample_match ([''M1'', ''M2''] ! i), 1)) 2
          (\<lambda>i. if i = 0 then (Rejected (Some 402), 10) else (Rejected (Some 429), 5))
          (initial_state 0)) =
     Response 429 (ErrorJson ''RapidAPI rate limit exceeded. Please try again later.'' True (Some ''rapidapi'')) \<and>
   fst (bundle_route (Some [''M1'', ''M2'']) 0 (\<lambda>i. (sample_match ([''M1'', ''M2''] ! i), 1)) 2
          (\<lambda>i. (if i = 0 then Rejected (Some 503) else sample_availability [''Netflix''], 3))
          (initial_state 0)) =
     (case analyze (length [''M1'', ''M2'']) [Found ''M1'' (sample_movie ''M1''), Found ''M2'' (sample_movie ''M2'')]
             [FoundP ''M1'' (sample_movie ''M1'') (Providers emptyProviders),
              FoundP ''M2'' (sample_movie ''M2'')
                (Providers (emptyProviders\<lparr>flatrate := [subscription ''Netflix'']\<rparr>))] of
        Inl e \<Rightarrow> bundle_catch e
      | Inr report \<Rightarrow> Response 200 (Report report))"
proof -
  let ?names = "[''M1'', ''M2'']"
  let ?up1 = "\<lambda>i. (sample_match ([''M1'', ''M2''] ! i), 1::int)"
  let ?mrs = "[Found ''M1'' (sample_movie ''M1''), Found ''M2'' (sample_movie ''M2'')]"
  let ?st2 = "\<lparr>cache = [(''search:m1'', \<lparr>data = Movies [sample_movie ''M1''], timestamp = 1\<rparr>),
                (''search:m2'', \<lparr>data = Movies [sample_movie ''M2''], timestamp = 1\<rparr>)],
       apiUsage = \<lparr>rapidApi = \<lparr>remaining = None, limit = None\<rparr>,
                   omdb = \<lparr>dailyCount = 0, lastReset = 0\<rparr>\<rparr>,
       omdbRequests = [''M1'', ''M2''], rapidRequests = []\<rparr>"
  let ?upA = "\<lambda>i::nat. if i = 0 then (Rejected (Some 402) :: rapid_data axios, 10::int)
                        else (Rejected (Some 429), 5)"
  let ?upB = "\<lambda>i::nat. (if i = 0 then Rejected (Some 503) else sample_availability [''Netflix''], 3::int)"
  have v1: "?names \<noteq> []" and v2: "length ?names \<le> 10"
    by simp_all
  have step1: "resolve_all 0 ?up1 ?names (initial_state 0) = (?mrs, ?st2)"
    by code_simp
  have miss2: "fst (getFromCache 2 (providers_key (id' (sample_movie ''M2''))) (cache ?st2)) = None"
    by code_simp
  have earliest: "\<forall>j q' mv' s'. j < length ?mrs \<and> j \<noteq> 1 \<and> ?mrs ! j = Found q' mv' \<and>
           fst (getFromCache 2 (providers_key (id' mv')) (cache ?st2)) = None \<and>
           fst (?upA j) = Rejected (Some s') \<and> (s' = 429 \<or> s' = 402) \<longrightarrow>
           snd (?upA 1) < snd (?upA j)"
    by (auto simp add: less_Suc_eq numeral_2_eq_2)
  note A = C5_availability_failures [OF v1 v2 step1, of 2 ?upA, THEN conjunct1, rule_format,
      of 1 "''M2''" "sample_movie ''M2''" 429]
  have abort: "fst (bundle_route (Some ?names) 0 ?up1 2 ?upA (initial_state 0)) =
     Response 429 (ErrorJson ''RapidAPI rate limit exceeded. Please try again later.'' True (Some ''rapidapi''))"
    using A miss2 earliest by simp
  note B = C5_availability_failures [OF v1 v2 step1, of 2 ?upB, THEN conjunct2, THEN conjunct2, THEN conjunct1]
  have tolerated: "\<forall>i q mv s. i < length ?mrs \<and> ?mrs ! i = Found q mv \<and>
        fst (getFromCache 2 (providers_key (id' mv)) (cache ?st2)) = None \<and>
        fst (?upB i) = Rejected (Some s) \<longrightarrow> s \<noteq> 429 \<and> s \<noteq> 402"
    by (auto simp add: less_Suc_eq numeral_2_eq_2 sample_availability_def)
  from mp [OF B tolerated] obtain mwps where
      m: "map Inr mwps = map (\<lambda>i. lookup_outcome 2 (cache ?st2) (fst (?upB i)) (?mrs ! i)) [0..<length ?mrs]"
      and r: "fst (bundle_route (Some ?names) 0 ?up1 2 ?upB (initial_state 0)) =
          (case analyze (length ?names) ?mrs mwps of
             Inl e \<Rightarrow> bundle_catch e
           | Inr report \<Rightarrow> Response 200 (Report report))"
    by blast
  have outs: "map (\<lambda>i. lookup_outcome 2 (cache ?st2) (fst (?upB i)) (?mrs ! i)) [0..<length ?mrs] =
     [Inr (FoundP ''M1'' (sample_movie ''M1'') (Providers emptyProviders)),
      Inr (FoundP ''M2'' (sample_movie ''M2'') (Providers (emptyProviders\<lparr>flatrate := [subscription ''Netflix'']\<rparr>)))]"
    by code_simp
  from m have "(map Inr mwps :: (thrown + movie_with_providers) list) =
     [Inr (FoundP ''M1'' (sample_movie ''M1'') (Providers emptyProviders)),
      Inr (FoundP ''M2'' (sample_movie ''M2'') (Providers (emptyProviders\<lparr>flatrate := [subscription ''Netflix'']\<rparr>)))]"
    unfolding outs .
  then have mwps: "mwps = [FoundP ''M1'' (sample_movie ''M1'') (Providers emptyProviders),
      FoundP ''M2'' (sample_movie ''M2'') (Providers (emptyProviders\<lparr>flatrate := [subscription ''Netflix'']\<rparr>))]"
    by (auto simp add: map_eq_Cons_conv)
  have degrade: "fst (bundle_route (Some ?names) 0 ?up1 2 ?upB (initial_state 0)) =
     (case analyze (length ?names) ?mrs
             [FoundP ''M1'' (sample_movie ''M1'') (Providers emptyProviders),
              FoundP ''M2'' (sample_movie ''M2'')
                (Providers (emptyProviders\<lparr>flatrate := [subscription ''Netflix'']\<rparr>))] of
        Inl e \<Rightarrow> bundle_catch e
      | Inr report \<Rightarrow> Response 200 (Report report))"
    using r unfolding mwps .
  show ?thesis
    using v1 v2 step1 abort degrade by blast
qed

text \<open>The second request of the instance above, evaluated: the movie whose lookup failed
  with status 503 is reported with no service, the other movie is unaffected.\<close>

lemma tolerated_failure_example:
  "fst (bundle_route (Some [''M1'', ''M2'']) 0 (\<lambda>i. (sample_match ([''M1'', ''M2''] ! i), 1)) 2
          (\<lambda>i. (if i = 0 then Rejected (Some 503) else sample_availability [''Netflix''], 3))
          (initial_state 0)) =
     Response 200 (Report
       \<lparr>totalMovies = 2, foundMovies = 2, notFoundMovies = [],
        bestService = Some \<lparr>service = ''Netflix'', movieCount = 1, movies = [''M2''], coverage = 50\<rparr>,
        allServices = [\<lparr>service = ''Netflix'', movieCount = 1, movies = [''M2''], coverage = 50\<rparr>],
        notOnAnySubscription = [''M1''],
        movieDetails =
          [\<lparr>searchQuery = ''M1'', detail_title = Some ''M1'', detail_year = Some ''1999'',
            found = True, subscriptionServices = []\<rparr>,
           \<lparr>searchQuery = ''M2'', detail_title = Some ''M2'', detail_year = Some ''1999'',
            found = True, subscriptionServices = [''Netflix'']\<rparr>]\<rparr>)"
  by code_simp

text \<open>Two lookups of one batch are rejected, one with status 402 and one with status 429:
  the handler answers with the status of the reply that arrives first.\<close>

lemma arrival_order_example:
  "fst (bundle_route (Some [''M1'', ''M2'']) 0 (\<lambda>i. (sample_match ([''M1'', ''M2''] ! i), 1)) 2
          (\<lambda>i. if i = 0 then (Rejected (Some 402), 5) else (Rejected (Some 429), 10))
          (initial_state 0)) =
     Response 402 (ErrorJson ''RapidAPI monthly quota exceeded (1000 requests/month)'' True (Some ''rapidapi'')) \<and>
   fst (bundle_route (Some [''M1'', ''M2'']) 0 (\<lambda>i. (sample_match ([''M1'', ''M2''] ! i), 1)) 2
          (\<lambda>i. if i = 0 then (Rejected (Some 402), 10) else (Rejected (Some 429), 5))
          (initial_state 0)) =
     Response 429 (ErrorJson ''RapidAPI rate limit exceeded. Please try again later.'' True (Some ''rapidapi''))"
  by code_simp

end
